theory Spec2Isabelle
  imports Main "HOL-Library.Word" "HOL-Library.Sublist"
begin

unbundle bit_operations_syntax

section \<open>Bytes, error values and writers\<close>

text \<open>
  A Go \<^verbatim>\<open>[]byte\<close> is a list of 8-bit words; a Go \<^verbatim>\<open>string\<close> is a list of
  characters. Go's \<^verbatim>\<open>int\<close> is taken at its 64-bit width: slice lengths and offsets
  stay far below \<open>2 ^ 63\<close>, so offsets are natural numbers and \<^verbatim>\<open>int(dataLen)\<close> of a
  \<^verbatim>\<open>uint32\<close> is its unsigned value.
\<close>

type_synonym byte = "8 word"

text \<open>The error codes of package \<^verbatim>\<open>errors\<close>, as the source and the taxonomy name them.\<close>

datatype ErrCode =
    AssertionError
  | ParseError
  | ServerNotAvailable
  | NetworkError
  | ConnectionResetError
  | AdbError
  | DeviceNotFound

text \<open>
  The device selector of the data model: \<^verbatim>\<open>AnyDevice\<close>, \<^verbatim>\<open>AnyUsbDevice\<close>,
  \<^verbatim>\<open>AnyLocalDevice\<close>, \<^verbatim>\<open>BySerial(string)\<close>.
\<close>

datatype DeviceDescriptor = AnyDevice | AnyUsbDevice | AnyLocalDevice | BySerial string

text \<open>
  The \<^verbatim>\<open>Details\<close> payload of an \<^verbatim>\<open>errors.Err\<close>: absent, or the
  \<^verbatim>\<open>ErrorResponseDetails{Request, ServerMsg}\<close> struct of package wire.
\<close>

datatype details = NoDetails | ErrorResponseDetails (Request: string) (ServerMsg: string)

text \<open>
  Go \<^verbatim>\<open>error\<close> values that the source builds:
  \<^item> \<open>Err code message details\<close> is \<^verbatim>\<open>&errors.Err{Code, Message, Details}\<close>, also what
    \<^verbatim>\<open>errors.Errorf(code, ...)\<close> and \<^verbatim>\<open>errors.AssertionErrorf(...)\<close> return (no details);
  \<^item> \<open>ErrorString s\<close> is the plain error of \<^verbatim>\<open>fmt.Errorf\<close>;
  \<^item> \<open>ClientError operation descriptor cause\<close> is the result of \<^verbatim>\<open>wrapClientError\<close>
    (see below);
  \<^item> \<open>Caused message cause\<close> is the result of \<^verbatim>\<open>errors.WrapErrf(cause, message)\<close>.
\<close>

datatype error =
    Err (Code: ErrCode) (Message: string) (Details: details)
  | ErrorString string
  | ClientError (clientOperation: string) (clientDevice: DeviceDescriptor) (clientCause: error)
  | Caused string error

text \<open>
  An \<^verbatim>\<open>io.Writer\<close> is an object with a state and a \<^verbatim>\<open>Write\<close> method, which returns the
  new state and, on failure, the text of its error. A \<^verbatim>\<open>nil\<close> writer is \<open>None\<close>.
  \<open>Buffer\<close> is \<^verbatim>\<open>bytes.Buffer\<close>: it appends and never fails.
\<close>

datatype 'w writer = Writer 'w "'w \<Rightarrow> byte list \<Rightarrow> 'w \<times> string option"

fun Write :: "'w writer \<Rightarrow> byte list \<Rightarrow> 'w writer \<times> string option" where
  "Write (Writer s f) p = (case f s p of (s', e) \<Rightarrow> (Writer s' f, e))"

definition Buffer :: "byte list \<Rightarrow> byte list writer" where
  "Buffer b = Writer b (\<lambda>s p. (s @ p, None))"

text \<open>\<^verbatim>\<open>%d\<close> of a non-negative integer: its decimal digits.\<close>

definition digit :: "nat \<Rightarrow> char" where
  "digit d = ''0123456789'' ! d"

fun Itoa :: "nat \<Rightarrow> string" where
  "Itoa n = (if n < 10 then [digit n] else Itoa (n div 10) @ [digit (n mod 10)])"

declare Itoa.simps [simp del]

section \<open>The shell v2 decoder (package wire)\<close>

text \<open>\<^verbatim>\<open>binary.LittleEndian.Uint32\<close> on a slice of four bytes.\<close>

definition Uint32 :: "byte list \<Rightarrow> 32 word" where
  "Uint32 b =
     ucast (b ! 0) OR push_bit 8 (ucast (b ! 1)) OR push_bit 16 (ucast (b ! 2))
       OR push_bit 24 (ucast (b ! 3))"

text \<open>
  The packet loop \<^verbatim>\<open>for offset < len(data) { ... }\<close>, which the source has twice with the
  same body: in \<^verbatim>\<open>DecodeV2Data\<close> (starting at offset 0) and inside the read loop of
  \<^verbatim>\<open>DecodeDataFromReader\<close> (starting at whatever \<^verbatim>\<open>offset\<close> and \<^verbatim>\<open>exitCode\<close> hold).
  The loop ends in one of two ways: a \<^verbatim>\<open>return\<close> of the enclosing function
  (\<open>Returned\<close>), or the loop is left by its condition or a \<^verbatim>\<open>break\<close> (\<open>Left\<close>), with
  the variables as they stand. The result of the \<^verbatim>\<open>Write\<close> of a trailing fragment is
  discarded, as in the source.
\<close>

datatype ('o, 'e) loop_end =
    Returned int "error option" "'o writer option" "'e writer option"
  | Left nat int "'o writer option" "'e writer option"

definition writeTail :: "'o writer option \<Rightarrow> byte list \<Rightarrow> 'o writer option" where
  "writeTail stdout bs = (case stdout of None \<Rightarrow> None | Some w \<Rightarrow> Some (fst (Write w bs)))"

function packetLoop ::
  "byte list \<Rightarrow> nat \<Rightarrow> int \<Rightarrow> 'o writer option \<Rightarrow> 'e writer option \<Rightarrow> ('o, 'e) loop_end"
where
  "packetLoop data offset exitCode stdout stderr =
     (if offset < length data then
        if offset + 5 > length data then
          Left offset exitCode (writeTail stdout (drop offset data)) stderr
        else
          let packetId = data ! offset;
              dataLen = Uint32 (take 4 (drop (offset + 1) data))
          in
            if offset + 5 + unat dataLen > length data then
              Left offset exitCode (writeTail stdout (drop offset data)) stderr
            else
              let packetData = take (unat dataLen) (drop (offset + 5) data);
                  offset' = offset + 5 + unat dataLen
              in
                if packetId = 1 then
                  (case stdout of
                     None \<Rightarrow> packetLoop data offset' exitCode stdout stderr
                   | Some w \<Rightarrow>
                       (case Write w packetData of
                          (w', Some e) \<Rightarrow>
                            Returned exitCode
                              (Some (ErrorString (''failed to write to stdout: '' @ e)))
                              (Some w') stderr
                        | (w', None) \<Rightarrow> packetLoop data offset' exitCode (Some w') stderr))
                else if packetId = 2 then
                  (case stderr of
                     None \<Rightarrow> packetLoop data offset' exitCode stdout stderr
                   | Some w \<Rightarrow>
                       (case Write w packetData of
                          (w', Some e) \<Rightarrow>
                            Returned exitCode
                              (Some (ErrorString (''failed to write to stderr: '' @ e)))
                              stdout (Some w')
                        | (w', None) \<Rightarrow> packetLoop data offset' exitCode stdout (Some w')))
                else if packetId = 3 then
                  packetLoop data offset'
                    (if length packetData > 0 then uint (packetData ! 0) else exitCode)
                    stdout stderr
                else
                  Returned 0
                    (Some (Err ParseError
                       (''unknown packet ID: '' @ Itoa (unat packetId)) NoDetails))
                    stdout stderr
      else Left offset exitCode stdout stderr)"
  by pat_completeness auto
termination
  by (relation "measure (\<lambda>(data, offset, exitCode, stdout, stderr). length data - offset)") auto

declare packetLoop.simps [simp del]

text \<open>
  \<^verbatim>\<open>DecodeV2Data\<close>: the packet loop from offset 0 and exit code 0; when the loop is left,
  \<^verbatim>\<open>return exitCode, nil\<close>. The result is the exit code, the error, and the two writers
  as the calls of \<^verbatim>\<open>Write\<close> left them.
\<close>

type_synonym ('o, 'e) decoded = "int \<times> error option \<times> 'o writer option \<times> 'e writer option"

definition DecodeV2Data ::
  "byte list \<Rightarrow> 'o writer option \<Rightarrow> 'e writer option \<Rightarrow> ('o, 'e) decoded"
where
  "DecodeV2Data data stdout stderr =
     (case packetLoop data 0 0 stdout stderr of
        Returned x e so se \<Rightarrow> (x, e, so, se)
      | Left off x so se \<Rightarrow> (x, None, so, se))"

text \<open>
  \<^verbatim>\<open>DecodeDataFromReader\<close>. The reader is its script: the results of the successive
  calls of \<^verbatim>\<open>Read(buf)\<close>, each the bytes delivered into the 4096-byte buffer and the
  error returned with them; once the script is exhausted \<^verbatim>\<open>Read\<close> returns
  \<^verbatim>\<open>(0, io.EOF)\<close>. So every reader of the model ends its stream, and the read loop
  ends with it; a reader that never reports the end or an error, on which the loop of
  the source does not return, has no script. \<^verbatim>\<open>offset\<close> and \<^verbatim>\<open>exitCode\<close> are
  declared before the read loop and keep their values from one read to the next.
\<close>

datatype read_error = EOF | ReadFailure string

type_synonym read_result = "byte list \<times> read_error option"

fun readLoop ::
  "read_result list \<Rightarrow> nat \<Rightarrow> int \<Rightarrow> 'o writer option \<Rightarrow> 'e writer option \<Rightarrow> ('o, 'e) decoded"
where
  "readLoop [] offset exitCode stdout stderr = (exitCode, None, stdout, stderr)"
| "readLoop ((chunk, err) # reader) offset exitCode stdout stderr =
     (case err of
        Some (ReadFailure m) \<Rightarrow>
          (exitCode, Some (ErrorString (''failed to read data: '' @ m)), stdout, stderr)
      | _ \<Rightarrow>
          let data = take 4096 chunk in
            if length data = 0 \<and> err = Some EOF then (exitCode, None, stdout, stderr)
            else
              (case packetLoop data offset exitCode stdout stderr of
                 Returned x e so se \<Rightarrow> (x, e, so, se)
               | Left offset' exitCode' so se \<Rightarrow>
                   if err = Some EOF then (exitCode', None, so, se)
                   else readLoop reader offset' exitCode' so se))"

definition DecodeDataFromReader ::
  "read_result list \<Rightarrow> 'o writer option \<Rightarrow> 'e writer option \<Rightarrow> ('o, 'e) decoded"
where
  "DecodeDataFromReader reader stdout stderr = readLoop reader 0 0 stdout stderr"

section \<open>The stream format, for stating properties of the decoder\<close>

text \<open>
  \<^verbatim>\<open>binary.LittleEndian.PutUint32\<close>: the four bytes of a length, least significant first.
  A packet is its id byte and its payload; on the wire it is the id, the length of the
  payload as a little-endian \<^verbatim>\<open>uint32\<close>, and the payload. A stream is the concatenation
  of its packets.
\<close>

definition le32 :: "32 word \<Rightarrow> byte list" where
  "le32 v = [ucast v, ucast (drop_bit 8 v), ucast (drop_bit 16 v), ucast (drop_bit 24 v)]"

type_synonym packet = "byte \<times> byte list"

definition packetBytes :: "packet \<Rightarrow> byte list" where
  "packetBytes pk = fst pk # le32 (of_nat (length (snd pk))) @ snd pk"

definition streamBytes :: "packet list \<Rightarrow> byte list" where
  "streamBytes ps = concat (map packetBytes ps)"

text \<open>
  What the \<^verbatim>\<open>switch packetId\<close> of the loop body does with one complete packet: it ends
  the enclosing function (\<open>Inl\<close>), or goes on with the exit code and the writers
  updated (\<open>Inr\<close>). \<open>runPackets\<close> does so for a list of packets in order. Both are
  used to reason about the loop; the decoder itself is \<open>packetLoop\<close>.
\<close>

definition handlePacket ::
  "byte \<Rightarrow> byte list \<Rightarrow> int \<Rightarrow> 'o writer option \<Rightarrow> 'e writer option \<Rightarrow>
     ('o, 'e) loop_end + int \<times> 'o writer option \<times> 'e writer option"
where
  "handlePacket packetId packetData exitCode stdout stderr =
     (if packetId = 1 then
        (case stdout of
           None \<Rightarrow> Inr (exitCode, stdout, stderr)
         | Some w \<Rightarrow>
             (case Write w packetData of
                (w', Some e) \<Rightarrow>
                  Inl (Returned exitCode
                    (Some (ErrorString (''failed to write to stdout: '' @ e))) (Some w') stderr)
              | (w', None) \<Rightarrow> Inr (exitCode, Some w', stderr)))
      else if packetId = 2 then
        (case stderr of
           None \<Rightarrow> Inr (exitCode, stdout, stderr)
         | Some w \<Rightarrow>
             (case Write w packetData of
                (w', Some e) \<Rightarrow>
                  Inl (Returned exitCode
                    (Some (ErrorString (''failed to write to stderr: '' @ e))) stdout (Some w'))
              | (w', None) \<Rightarrow> Inr (exitCode, stdout, Some w')))
      else if packetId = 3 then
        Inr (if length packetData > 0 then uint (packetData ! 0) else exitCode, stdout, stderr)
      else
        Inl (Returned 0
          (Some (Err ParseError (''unknown packet ID: '' @ Itoa (unat packetId)) NoDetails))
          stdout stderr))"

fun runPackets ::
  "packet list \<Rightarrow> int \<Rightarrow> 'o writer option \<Rightarrow> 'e writer option \<Rightarrow>
     ('o, 'e) loop_end + int \<times> 'o writer option \<times> 'e writer option"
where
  "runPackets [] exitCode stdout stderr = Inr (exitCode, stdout, stderr)"
| "runPackets (pk # ps) exitCode stdout stderr =
     (case handlePacket (fst pk) (snd pk) exitCode stdout stderr of
        Inl r \<Rightarrow> Inl r
      | Inr (x, so, se) \<Rightarrow> runPackets ps x so se)"

text \<open>
  What a decoded stream shows: the payloads of the packets with a given id, concatenated
  in order; and the exit code, the first payload byte of the last id-3 packet whose
  payload is not empty, or the initial value when there is none.
\<close>

definition payloadsOf :: "byte \<Rightarrow> packet list \<Rightarrow> byte list" where
  "payloadsOf k ps = concat (map snd (filter (\<lambda>pk. fst pk = k) ps))"

definition exitFrom :: "int \<Rightarrow> packet list \<Rightarrow> int" where
  "exitFrom x ps =
     (let es = filter (\<lambda>pk. fst pk = 3 \<and> snd pk \<noteq> []) ps
      in if es = [] then x else uint (hd (snd (last es))))"

definition exitCodeOf :: "packet list \<Rightarrow> int" where
  "exitCodeOf ps = exitFrom 0 ps"

text \<open>
  The packets a stream is made of here: payloads short enough for a \<^verbatim>\<open>uint32\<close> length
  (\<open>wellFormed\<close>), and ids among 1, 2 and 3 (\<open>knownIds\<close>). A trailing fragment is
  \<open>truncated\<close> when it is not empty and is shorter than a header, or its header declares
  more payload than remains.
\<close>

definition wellFormed :: "packet list \<Rightarrow> bool" where
  "wellFormed ps = list_all (\<lambda>pk. length (snd pk) < 2 ^ 32) ps"

definition knownIds :: "packet list \<Rightarrow> bool" where
  "knownIds ps = list_all (\<lambda>pk. fst pk = 1 \<or> fst pk = 2 \<or> fst pk = 3) ps"

definition truncated :: "byte list \<Rightarrow> bool" where
  "truncated t =
     (t \<noteq> [] \<and> (length t < 5 \<or> length t < 5 + unat (Uint32 (take 4 (drop 1 t)))))"

text \<open>A writer none of whose writes fails, whatever its state; a \<^verbatim>\<open>nil\<close> writer counts.\<close>

definition reliable :: "'w writer option \<Rightarrow> bool" where
  "reliable wo = (case wo of None \<Rightarrow> True | Some (Writer s f) \<Rightarrow> (\<forall>s' p. snd (f s' p) = None))"

text \<open>An error that is a \<^verbatim>\<open>ParseError\<close>, and a \<^verbatim>\<open>return\<close> of the loop with one.\<close>

fun isParseError :: "error option \<Rightarrow> bool" where
  "isParseError (Some (Err c m d)) = (c = ParseError)"
| "isParseError e = False"

fun parseFailure :: "('o, 'e) loop_end \<Rightarrow> bool" where
  "parseFailure (Returned x e so se) = isParseError e"
| "parseFailure (Left off x so se) = False"

section \<open>Server errors (package wire)\<close>

text \<open>
  Regular expressions, as far as \<^verbatim>\<open>deviceNotFoundMessagePattern\<close> needs them: literals,
  \<^verbatim>\<open>.\<close> (any character but a newline, as Go's \<^verbatim>\<open>regexp\<close> reads it without the
  \<^verbatim>\<open>s\<close> flag), concatenation, alternation and \<^verbatim>\<open>*\<close>; \<^verbatim>\<open>r?\<close> is \<open>Alt r One\<close>.
  \<^verbatim>\<open>MatchString\<close> reports whether the string contains any match of the expression; it
  is computed with derivatives.
\<close>

datatype regex =
    Zero
  | One
  | Lit char
  | Dot
  | Cat regex regex
  | Alt regex regex
  | Star regex

fun nullable :: "regex \<Rightarrow> bool" where
  "nullable Zero = False"
| "nullable One = True"
| "nullable (Lit c) = False"
| "nullable Dot = False"
| "nullable (Cat r s) = (nullable r \<and> nullable s)"
| "nullable (Alt r s) = (nullable r \<or> nullable s)"
| "nullable (Star r) = True"

fun deriv :: "char \<Rightarrow> regex \<Rightarrow> regex" where
  "deriv c Zero = Zero"
| "deriv c One = Zero"
| "deriv c (Lit d) = (if c = d then One else Zero)"
| "deriv c Dot = (if c = CHR 0x0A then Zero else One)"
| "deriv c (Cat r s) =
     (if nullable r then Alt (Cat (deriv c r) s) (deriv c s) else Cat (deriv c r) s)"
| "deriv c (Alt r s) = Alt (deriv c r) (deriv c s)"
| "deriv c (Star r) = Cat (deriv c r) (Star r)"

fun matchesPrefix :: "regex \<Rightarrow> string \<Rightarrow> bool" where
  "matchesPrefix r [] = nullable r"
| "matchesPrefix r (c # cs) = (nullable r \<or> matchesPrefix (deriv c r) cs)"

fun MatchString :: "regex \<Rightarrow> string \<Rightarrow> bool" where
  "MatchString r [] = nullable r"
| "MatchString r (c # cs) = (matchesPrefix r (c # cs) \<or> MatchString r cs)"

fun literal :: "string \<Rightarrow> regex" where
  "literal [] = One"
| "literal (c # cs) = Cat (Lit c) (literal cs)"

text \<open>\<^verbatim>\<open>regexp.MustCompile(`device( '.*')? not found`)\<close>\<close>

definition deviceNotFoundMessagePattern :: regex where
  "deviceNotFoundMessagePattern =
     Cat (literal ''device'')
       (Cat (Alt (Cat (literal ([CHR '' '', CHR 0x27])) (Cat (Star Dot) (Lit (CHR 0x27)))) One)
          (literal '' not found''))"



definition adbServerError :: "string \<Rightarrow> string \<Rightarrow> error" where
  "adbServerError request serverMsg =
     (let msg =
        (if request = [] then ''server error: '' @ serverMsg
         else ''server error for '' @ request @ '' request: '' @ serverMsg);
          errCode =
        (if MatchString deviceNotFoundMessagePattern serverMsg then DeviceNotFound
         else AdbError)
      in Err errCode msg (ErrorResponseDetails request serverMsg))"

text \<open>
  The meaning of a regular expression: the set of strings it matches, and whether a
  string contains a match.
\<close>

inductive_set kleene :: "string set \<Rightarrow> string set" for A :: "string set" where
  empty: "[] \<in> kleene A"
| more: "u \<in> A \<Longrightarrow> v \<in> kleene A \<Longrightarrow> u @ v \<in> kleene A"

fun lang :: "regex \<Rightarrow> string set" where
  "lang Zero = {}"
| "lang One = {[]}"
| "lang (Lit c) = {[c]}"
| "lang Dot = {[c] | c. c \<noteq> CHR 0x0A}"
| "lang (Cat r s) = {u @ v | u v. u \<in> lang r \<and> v \<in> lang s}"
| "lang (Alt r s) = lang r \<union> lang s"
| "lang (Star r) = kleene (lang r)"

definition hasMatch :: "regex \<Rightarrow> string \<Rightarrow> bool" where
  "hasMatch r s = (\<exists>pre mid post. s = pre @ mid @ post \<and> mid \<in> lang r)"

section \<open>Command lines (package adb)\<close>

definition doubleQuote :: char where
  "doubleQuote = CHR 0x22"

text \<open>
  The loop \<^verbatim>\<open>for i, arg := range args\<close> of \<^verbatim>\<open>prepareCommandLine\<close>, from index \<open>i\<close> on:
  it returns at the first argument that contains a double quote, and overwrites in place
  each argument that contains whitespace with its quoted form.
\<close>

function quoteLoop :: "(string \<Rightarrow> bool) \<Rightarrow> nat \<Rightarrow> string list \<Rightarrow> error + string list" where
  "quoteLoop containsWhitespace i args =
     (if i < length args then
        let arg = args ! i in
          if doubleQuote \<in> set arg then
            Inl (Err ParseError
              (''arg at index '' @ Itoa i @ '' contains an invalid double quote: '' @ arg)
              NoDetails)
          else if containsWhitespace arg then
            quoteLoop containsWhitespace (i + 1) (args[i := [doubleQuote] @ arg @ [doubleQuote]])
          else quoteLoop containsWhitespace (i + 1) args
      else Inr args)"
  by pat_completeness auto
termination
  by (relation "measure (\<lambda>(containsWhitespace, i, args). length args - i)") auto

declare quoteLoop.simps [simp del]

text \<open>\<^verbatim>\<open>strings.Join\<close>\<close>

fun Join :: "string list \<Rightarrow> string \<Rightarrow> string" where
  "Join [] sep = []"
| "Join [a] sep = a"
| "Join (a # b # elems) sep = a @ sep @ Join (b # elems) sep"

text \<open>
  \<^verbatim>\<open>prepareCommandLine\<close>. The helpers \<^verbatim>\<open>isBlank\<close> and \<^verbatim>\<open>containsWhitespace\<close> of package
  adb are not among the sources; they are parameters.
\<close>

definition prepareCommandLine ::
  "(string \<Rightarrow> bool) \<Rightarrow> (string \<Rightarrow> bool) \<Rightarrow> string \<Rightarrow> string list \<Rightarrow> error + string"
where
  "prepareCommandLine isBlank containsWhitespace cmd args =
     (if isBlank cmd then Inl (Err AssertionError ''command cannot be empty'' NoDetails)
      else
        (case quoteLoop containsWhitespace 0 args of
           Inl err \<Rightarrow> Inl err
         | Inr args' \<Rightarrow>
             Inr (if length args' > 0 then cmd @ '' '' @ Join args' '' '' else cmd)))"

text \<open>
  For stating what \<^verbatim>\<open>prepareCommandLine\<close> returns: the index of the first argument that
  contains a double quote, if any; an argument as it is joined, wrapped in double quotes
  when it contains whitespace; and the ASCII whitespace characters, for examples of the
  two helpers.
\<close>

fun firstQuoted :: "string list \<Rightarrow> nat option" where
  "firstQuoted [] = None"
| "firstQuoted (arg # args) =
     (if doubleQuote \<in> set arg then Some 0 else map_option Suc (firstQuoted args))"

definition quoted :: "(string \<Rightarrow> bool) \<Rightarrow> string \<Rightarrow> string" where
  "quoted containsWhitespace arg =
     (if containsWhitespace arg then [doubleQuote] @ arg @ [doubleQuote] else arg)"

definition asciiSpace :: "char \<Rightarrow> bool" where
  "asciiSpace c = (c \<in> set [CHR '' '', CHR 0x09, CHR 0x0A, CHR 0x0B, CHR 0x0C, CHR 0x0D])"

section \<open>The Device facade (package adb)\<close>

text \<open>
  The device states the source names. \<^verbatim>\<open>StateDisconnected\<close> is the watcher's "absent
  from the snapshot".
\<close>

datatype DeviceState =
    StateInvalid
  | StateUnauthorized
  | StateDisconnected
  | StateOffline
  | StateOnline

text \<open>
  Connections, sync connections, directory cursors, remote readers and writers and the
  caller's local files are objects of the world outside the facade; the model refers to
  them by handles. A world state \<open>'w\<close> holds whatever these objects, the network and
  the clock are; every operation that performs I/O takes the world and returns the new
  one. A Go result \<^verbatim>\<open>(T, error)\<close> is a pair of the value and an optional error, or a
  sum where the source returns either the value or the error.
\<close>

type_synonym handle = nat

type_synonym sink = "byte list writer option"

record DeviceInfo =
  infoSerial :: string
  infoProduct :: string
  infoModel :: string
  infoDevice :: string
  infoUsb :: string

record DirEntry =
  Name :: string
  Mode :: nat
  Size :: nat
  ModifiedAt :: nat

text \<open>
  \<^verbatim>\<open>type Device struct { server; descriptor; deviceListFunc }\<close>. The \<^verbatim>\<open>server\<close> field
  stands for its \<^verbatim>\<open>Dial\<close> method.
\<close>

record 'w Device =
  server :: "'w \<Rightarrow> (handle \<times> error option) \<times> 'w"
  descriptor :: DeviceDescriptor
  deviceListFunc :: "'w \<Rightarrow> (DeviceInfo list \<times> error option) \<times> 'w"

text \<open>
  What \<^verbatim>\<open>device.go\<close> calls and the sources do not hold: helpers of package adb, the
  \<^verbatim>\<open>Error\<close> method of an error, the methods of \<^verbatim>\<open>wire.Conn\<close> and \<^verbatim>\<open>wire.SyncConn\<close>, the
  sync requests, \<^verbatim>\<open>io.Copy\<close>, \<^verbatim>\<open>io.CopyN\<close> and the clock. They are parameters of the
  model, collected in one record.
\<close>

record 'w environment =
  isBlank :: "string \<Rightarrow> bool"
  containsWhitespace :: "string \<Rightarrow> bool"
  parseDeviceState :: "string \<Rightarrow> DeviceState \<times> error option"
  Error :: "error \<Rightarrow> string"
  descriptorString :: "DeviceDescriptor \<Rightarrow> string"
  roundTripSingleResponse ::
    "('w \<Rightarrow> (handle \<times> error option) \<times> 'w) \<Rightarrow> string \<Rightarrow> 'w \<Rightarrow> (string \<times> error option) \<times> 'w"
  SendMessageString :: "handle \<Rightarrow> string \<Rightarrow> 'w \<Rightarrow> error option \<times> 'w"
  SendMessage :: "handle \<Rightarrow> string \<Rightarrow> 'w \<Rightarrow> error option \<times> 'w"
  ReadStatus :: "handle \<Rightarrow> string \<Rightarrow> 'w \<Rightarrow> (string \<times> error option) \<times> 'w"
  ReadUntilEof :: "handle \<Rightarrow> 'w \<Rightarrow> (string \<times> error option) \<times> 'w"
  ReadUntilEofV2WithStd ::
    "handle \<Rightarrow> sink \<Rightarrow> sink \<Rightarrow> 'w \<Rightarrow> ((int \<times> error option) \<times> sink \<times> sink) \<times> 'w"
  RoundTripSingleResponse :: "handle \<Rightarrow> string \<Rightarrow> 'w \<Rightarrow> (string \<times> error option) \<times> 'w"
  Close :: "handle \<Rightarrow> 'w \<Rightarrow> 'w"
  NewSyncConn :: "handle \<Rightarrow> handle"
  listDirEntries :: "handle \<Rightarrow> string \<Rightarrow> 'w \<Rightarrow> (handle option \<times> error option) \<times> 'w"
  stat :: "handle \<Rightarrow> string \<Rightarrow> 'w \<Rightarrow> (DirEntry option \<times> error option) \<times> 'w"
  receiveFile :: "handle \<Rightarrow> string \<Rightarrow> 'w \<Rightarrow> (handle option \<times> error option) \<times> 'w"
  sendFile ::
    "handle \<Rightarrow> string \<Rightarrow> nat \<Rightarrow> nat \<Rightarrow> 'w \<Rightarrow> (handle option \<times> error option) \<times> 'w"
  CopyN :: "handle \<Rightarrow> handle \<Rightarrow> nat \<Rightarrow> 'w \<Rightarrow> error option \<times> 'w"
  Copy :: "handle \<Rightarrow> handle \<Rightarrow> 'w \<Rightarrow> error option \<times> 'w"
  Now :: "'w \<Rightarrow> nat \<times> 'w"

text \<open>
  Modelled from the spec: the two strings a \<^verbatim>\<open>DeviceDescriptor\<close> yields, whose code is not
  among the sources. The host prefix is \<^verbatim>\<open>host\<close>, \<^verbatim>\<open>host-usb\<close>, \<^verbatim>\<open>host-local\<close> or
  \<^verbatim>\<open>host-serial:<s>\<close>; the transport descriptor is \<^verbatim>\<open>transport-any\<close>,
  \<^verbatim>\<open>transport-usb\<close>, \<^verbatim>\<open>transport-local\<close> or \<^verbatim>\<open>transport:<s>\<close>.
\<close>

fun getHostPrefix :: "DeviceDescriptor \<Rightarrow> string" where
  "getHostPrefix AnyDevice = ''host''"
| "getHostPrefix AnyUsbDevice = ''host-usb''"
| "getHostPrefix AnyLocalDevice = ''host-local''"
| "getHostPrefix (BySerial s) = ''host-serial:'' @ s"

fun getTransportDescriptor :: "DeviceDescriptor \<Rightarrow> string" where
  "getTransportDescriptor AnyDevice = ''transport-any''"
| "getTransportDescriptor AnyUsbDevice = ''transport-usb''"
| "getTransportDescriptor AnyLocalDevice = ''transport-local''"
| "getTransportDescriptor (BySerial s) = ''transport:'' @ s"

text \<open>
  Modelled from the spec: \<^verbatim>\<open>wrapClientError\<close>, whose code is not among the sources.
  "Every public call wraps its failure with the operation name and the device descriptor
  for context": the wrapped error holds the operation name, the descriptor of the device
  and the error it wraps. The callers pass it \<^verbatim>\<open>nil\<close> on success and return what it
  returns, so \<^verbatim>\<open>nil\<close> stays \<^verbatim>\<open>nil\<close>.
\<close>

definition wrapClientError :: "error option \<Rightarrow> 'w Device \<Rightarrow> string \<Rightarrow> error option" where
  "wrapClientError err c operation =
     (case err of None \<Rightarrow> None | Some e \<Rightarrow> Some (ClientError operation (descriptor c) e))"

text \<open>\<^verbatim>\<open>strings.Contains\<close>\<close>

fun Contains :: "string \<Rightarrow> string \<Rightarrow> bool" where
  "Contains [] substr = (substr = [])"
| "Contains (c # s) substr = (prefix substr (c # s) \<or> Contains s substr)"

definition getAttribute ::
  "'w environment \<Rightarrow> 'w Device \<Rightarrow> string \<Rightarrow> 'w \<Rightarrow> (string \<times> error option) \<times> 'w"
where
  "getAttribute env c attr w =
     (case roundTripSingleResponse env (server c)
             (getHostPrefix (descriptor c) @ '':'' @ attr) w of
        ((resp, Some err), w1) \<Rightarrow> (([], Some err), w1)
      | ((resp, None), w1) \<Rightarrow> ((resp, None), w1))"

definition product ::
  "'w environment \<Rightarrow> 'w Device \<Rightarrow> 'w \<Rightarrow> (string \<times> error option) \<times> 'w"
where
  "product env c w =
     (case getAttribute env c ''get-product'' w of
        ((attr, err), w1) \<Rightarrow> ((attr, wrapClientError err c ''Product''), w1))"

definition Serial ::
  "'w environment \<Rightarrow> 'w Device \<Rightarrow> 'w \<Rightarrow> (string \<times> error option) \<times> 'w"
where
  "Serial env c w =
     (case getAttribute env c ''get-serialno'' w of
        ((attr, err), w1) \<Rightarrow> ((attr, wrapClientError err c ''Serial''), w1))"

definition DevicePath ::
  "'w environment \<Rightarrow> 'w Device \<Rightarrow> 'w \<Rightarrow> (string \<times> error option) \<times> 'w"
where
  "DevicePath env c w =
     (case getAttribute env c ''get-devpath'' w of
        ((attr, err), w1) \<Rightarrow> ((attr, wrapClientError err c ''DevicePath''), w1))"

definition State ::
  "'w environment \<Rightarrow> 'w Device \<Rightarrow> 'w \<Rightarrow> (DeviceState \<times> error option) \<times> 'w"
where
  "State env c w =
     (case getAttribute env c ''get-state'' w of
        ((attr, Some err), w1) \<Rightarrow>
          if Contains (Error env err) ''unauthorized'' then ((StateUnauthorized, None), w1)
          else ((StateInvalid, wrapClientError (Some err) c ''State''), w1)
      | ((attr, None), w1) \<Rightarrow>
          (case parseDeviceState env attr of
             (state, err) \<Rightarrow> ((state, wrapClientError err c ''State''), w1)))"

definition DeviceInfo ::
  "'w environment \<Rightarrow> 'w Device \<Rightarrow> 'w \<Rightarrow> (DeviceInfo option \<times> error option) \<times> 'w"
where
  "DeviceInfo env c w =
     (case Serial env c w of
        ((serial, Some err), w1) \<Rightarrow>
          ((None, wrapClientError (Some err) c ''GetDeviceInfo(GetSerial)''), w1)
      | ((serial, None), w1) \<Rightarrow>
          (case deviceListFunc c w1 of
             ((devices, Some err), w2) \<Rightarrow>
               ((None, wrapClientError (Some err) c ''DeviceInfo(ListDevices)''), w2)
           | ((devices, None), w2) \<Rightarrow>
               (case find (\<lambda>deviceInfo. infoSerial deviceInfo = serial) devices of
                  Some deviceInfo \<Rightarrow> ((Some deviceInfo, None), w2)
                | None \<Rightarrow>
                    ((None,
                      wrapClientError
                        (Some (Err DeviceNotFound
                           (''device list doesn't contain serial '' @ serial) NoDetails))
                        c ''DeviceInfo''), w2))))"

text \<open>
  \<^verbatim>\<open>dialDevice\<close> returns either the connection or the error; on a failure after the dial
  it closes the connection first. \<^verbatim>\<open>errors.WrapErrf(err, format, descriptor)\<close> is the
  value \<open>Caused\<close> of its formatted message and the error it wraps.
\<close>

definition dialDevice :: "'w environment \<Rightarrow> 'w Device \<Rightarrow> 'w \<Rightarrow> (error + handle) \<times> 'w" where
  "dialDevice env c w =
     (case server c w of
        ((conn, Some err), w1) \<Rightarrow> (Inl err, w1)
      | ((conn, None), w1) \<Rightarrow>
          (let req = ''host:'' @ getTransportDescriptor (descriptor c) in
             case SendMessageString env conn req w1 of
               (Some err, w2) \<Rightarrow>
                 (Inl (Caused
                    (''error connecting to device '' @ [CHR 0x27]
                       @ descriptorString env (descriptor c) @ [CHR 0x27]) err),
                  Close env conn w2)
             | (None, w2) \<Rightarrow>
                 (case ReadStatus env conn req w2 of
                    ((status, Some err), w3) \<Rightarrow> (Inl err, Close env conn w3)
                  | ((status, None), w3) \<Rightarrow> (Inr conn, w3))))"

definition getSyncConn :: "'w environment \<Rightarrow> 'w Device \<Rightarrow> 'w \<Rightarrow> (error + handle) \<times> 'w" where
  "getSyncConn env c w =
     (case dialDevice env c w of
        (Inl err, w1) \<Rightarrow> (Inl err, w1)
      | (Inr conn, w1) \<Rightarrow>
          (case SendMessageString env conn ''sync:'' w1 of
             (Some err, w2) \<Rightarrow> (Inl err, w2)
           | (None, w2) \<Rightarrow>
               (case ReadStatus env conn ''sync'' w2 of
                  ((status, Some err), w3) \<Rightarrow> (Inl err, w3)
                | ((status, None), w3) \<Rightarrow> (Inr (NewSyncConn env conn), w3))))"

text \<open>
  \<^verbatim>\<open>RunCommand\<close>. The deferred \<^verbatim>\<open>conn.Close()\<close> runs when the function returns, after
  the results are computed.
\<close>

definition RunCommand ::
  "'w environment \<Rightarrow> 'w Device \<Rightarrow> string \<Rightarrow> string list \<Rightarrow> 'w \<Rightarrow> (string \<times> error option) \<times> 'w"
where
  "RunCommand env c cmd args w =
     (case prepareCommandLine (isBlank env) (containsWhitespace env) cmd args of
        Inl err \<Rightarrow> (([], wrapClientError (Some err) c ''RunCommand''), w)
      | Inr cmd' \<Rightarrow>
          (case dialDevice env c w of
             (Inl err, w1) \<Rightarrow> (([], wrapClientError (Some err) c ''RunCommand''), w1)
           | (Inr conn, w1) \<Rightarrow>
               (let req = ''shell:'' @ cmd' in
                  case SendMessage env conn req w1 of
                    (Some err, w2) \<Rightarrow>
                      (([], wrapClientError (Some err) c ''RunCommand''), Close env conn w2)
                  | (None, w2) \<Rightarrow>
                      (case ReadStatus env conn req w2 of
                         ((status, Some err), w3) \<Rightarrow>
                           (([], wrapClientError (Some err) c ''RunCommand''),
                            Close env conn w3)
                       | ((status, None), w3) \<Rightarrow>
                           (case ReadUntilEof env conn w3 of
                              ((resp, err), w4) \<Rightarrow>
                                ((resp, wrapClientError err c ''RunCommand''),
                                 Close env conn w4))))))"

text \<open>
  \<^verbatim>\<open>RunCommandV2WithStd\<close>. Its last statement is
  \<^verbatim>\<open>exitCode, err := conn.ReadUntilEofV2WithStd(stdout, stderr); return exitCode, err\<close>.
  The result holds the two writers as the call left them.
\<close>

definition RunCommandV2WithStd ::
  "'w environment \<Rightarrow> 'w Device \<Rightarrow> sink \<Rightarrow> sink \<Rightarrow> string \<Rightarrow> string list \<Rightarrow> 'w \<Rightarrow>
     ((int \<times> error option) \<times> sink \<times> sink) \<times> 'w"
where
  "RunCommandV2WithStd env c stdout stderr cmd args w =
     (case prepareCommandLine (isBlank env) (containsWhitespace env) cmd args of
        Inl err \<Rightarrow> (((- 1, wrapClientError (Some err) c ''RunCommand''), stdout, stderr), w)
      | Inr cmd' \<Rightarrow>
          (case dialDevice env c w of
             (Inl err, w1) \<Rightarrow>
               (((- 1, wrapClientError (Some err) c ''RunCommand''), stdout, stderr), w1)
           | (Inr conn, w1) \<Rightarrow>
               (let req = ''shell,v2,TERM=xterm-256color,raw:'' @ cmd' in
                  case SendMessage env conn req w1 of
                    (Some err, w2) \<Rightarrow>
                      (((- 1, wrapClientError (Some err) c ''RunCommand''), stdout, stderr),
                       Close env conn w2)
                  | (None, w2) \<Rightarrow>
                      (case ReadStatus env conn req w2 of
                         ((status, Some err), w3) \<Rightarrow>
                           (((- 1, wrapClientError (Some err) c ''RunCommand''),
                             stdout, stderr),
                            Close env conn w3)
                       | ((status, None), w3) \<Rightarrow>
                           (case ReadUntilEofV2WithStd env conn stdout stderr w3 of
                              (((exitCode, err), stdout', stderr'), w4) \<Rightarrow>
                                (((exitCode, err), stdout', stderr'), Close env conn w4))))))"

text \<open>
  \<^verbatim>\<open>RunCommandV2\<close> runs \<^verbatim>\<open>RunCommandV2WithStd\<close> on two fresh buffers and returns their
  contents with the exit code and the error.
\<close>

fun contents :: "sink \<Rightarrow> byte list" where
  "contents None = []"
| "contents (Some (Writer b f)) = b"

definition RunCommandV2 ::
  "'w environment \<Rightarrow> 'w Device \<Rightarrow> string \<Rightarrow> string list \<Rightarrow> 'w \<Rightarrow>
     (int \<times> byte list \<times> byte list \<times> error option) \<times> 'w"
where
  "RunCommandV2 env c cmd args w =
     (case RunCommandV2WithStd env c (Some (Buffer [])) (Some (Buffer [])) cmd args w of
        (((exitCode, err), stdoutBuf, stderrBuf), w1) \<Rightarrow>
          ((exitCode, contents stdoutBuf, contents stderrBuf, err), w1))"

definition Remount ::
  "'w environment \<Rightarrow> 'w Device \<Rightarrow> 'w \<Rightarrow> (string \<times> error option) \<times> 'w"
where
  "Remount env c w =
     (case dialDevice env c w of
        (Inl err, w1) \<Rightarrow> (([], wrapClientError (Some err) c ''Remount''), w1)
      | (Inr conn, w1) \<Rightarrow>
          (case RoundTripSingleResponse env conn ''remount'' w1 of
             ((resp, err), w2) \<Rightarrow>
               ((resp, wrapClientError err c ''Remount''), Close env conn w2)))"

definition ListDirEntries ::
  "'w environment \<Rightarrow> 'w Device \<Rightarrow> string \<Rightarrow> 'w \<Rightarrow> (handle option \<times> error option) \<times> 'w"
where
  "ListDirEntries env c path w =
     (case getSyncConn env c w of
        (Inl err, w1) \<Rightarrow>
          ((None, wrapClientError (Some err) c (''ListDirEntries('' @ path @ '')'')), w1)
      | (Inr conn, w1) \<Rightarrow>
          (case listDirEntries env conn path w1 of
             ((entries, err), w2) \<Rightarrow>
               ((entries, wrapClientError err c (''ListDirEntries('' @ path @ '')'')), w2)))"

definition Stat ::
  "'w environment \<Rightarrow> 'w Device \<Rightarrow> string \<Rightarrow> 'w \<Rightarrow> (DirEntry option \<times> error option) \<times> 'w"
where
  "Stat env c path w =
     (case getSyncConn env c w of
        (Inl err, w1) \<Rightarrow> ((None, wrapClientError (Some err) c (''Stat('' @ path @ '')'')), w1)
      | (Inr conn, w1) \<Rightarrow>
          (case stat env conn path w1 of
             ((entry, err), w2) \<Rightarrow>
               ((entry, wrapClientError err c (''Stat('' @ path @ '')'')),
                Close env conn w2)))"

definition OpenRead ::
  "'w environment \<Rightarrow> 'w Device \<Rightarrow> string \<Rightarrow> 'w \<Rightarrow> (handle option \<times> error option) \<times> 'w"
where
  "OpenRead env c path w =
     (case getSyncConn env c w of
        (Inl err, w1) \<Rightarrow>
          ((None, wrapClientError (Some err) c (''OpenRead('' @ path @ '')'')), w1)
      | (Inr conn, w1) \<Rightarrow>
          (case receiveFile env conn path w1 of
             ((reader, err), w2) \<Rightarrow>
               ((reader, wrapClientError err c (''OpenRead('' @ path @ '')'')), w2)))"

definition OpenWrite ::
  "'w environment \<Rightarrow> 'w Device \<Rightarrow> string \<Rightarrow> nat \<Rightarrow> nat \<Rightarrow> 'w \<Rightarrow>
     (handle option \<times> error option) \<times> 'w"
where
  "OpenWrite env c path perms mtime w =
     (case getSyncConn env c w of
        (Inl err, w1) \<Rightarrow>
          ((None, wrapClientError (Some err) c (''OpenWrite('' @ path @ '')'')), w1)
      | (Inr conn, w1) \<Rightarrow>
          (case sendFile env conn path perms mtime w1 of
             ((writer, err), w2) \<Rightarrow>
               ((writer, wrapClientError err c (''OpenWrite('' @ path @ '')'')), w2)))"

text \<open>
  \<^verbatim>\<open>Pull\<close> and \<^verbatim>\<open>Push\<close>. The local file is \<open>None\<close> when the caller passes \<^verbatim>\<open>nil\<close>.
  Both return an error or \<^verbatim>\<open>nil\<close>, or panic: should \<^verbatim>\<open>Stat\<close>, \<^verbatim>\<open>OpenRead\<close> or
  \<^verbatim>\<open>OpenWrite\<close> return \<^verbatim>\<open>nil\<close> with no error, \<^verbatim>\<open>defer remoteFile.Close()\<close>,
  \<^verbatim>\<open>defer writer.Close()\<close> or \<^verbatim>\<open>info.Size\<close> dereferences \<^verbatim>\<open>nil\<close> (the last one with the
  reader's \<^verbatim>\<open>Close\<close> already deferred). \<^verbatim>\<open>os.FileMode(0x666)\<close> is 1638.
\<close>

datatype outcome = Returns "error option" | Panics

definition Pull ::
  "'w environment \<Rightarrow> 'w Device \<Rightarrow> string \<Rightarrow> handle option \<Rightarrow> 'w \<Rightarrow> outcome \<times> 'w"
where
  "Pull env c remotePath localFile w =
     (if remotePath = [] then
        (Returns (Some (Err AssertionError ''remotePath cannot be empty'' NoDetails)), w)
      else
        (case localFile of
           None \<Rightarrow>
             (Returns (Some (Err AssertionError ''localFile cannot be nil'' NoDetails)), w)
         | Some file \<Rightarrow>
             (case Stat env c remotePath w of
                ((info, Some err), w1) \<Rightarrow> (Returns (Some err), w1)
              | ((info, None), w1) \<Rightarrow>
                  (case OpenRead env c remotePath w1 of
                     ((remoteFile, Some err), w2) \<Rightarrow> (Returns (Some err), w2)
                   | ((None, None), w2) \<Rightarrow> (Panics, w2)
                   | ((Some reader, None), w2) \<Rightarrow>
                       (case info of
                          None \<Rightarrow> (Panics, Close env reader w2)
                        | Some entry \<Rightarrow>
                            (case CopyN env file reader (Size entry) w2 of
                               (err, w3) \<Rightarrow> (Returns err, Close env reader w3)))))))"

definition Push ::
  "'w environment \<Rightarrow> 'w Device \<Rightarrow> handle option \<Rightarrow> string \<Rightarrow> 'w \<Rightarrow> outcome \<times> 'w"
where
  "Push env c localFile remotePath w =
     (if remotePath = [] then
        (Returns (Some (Err AssertionError ''remotePath cannot be empty'' NoDetails)), w)
      else
        (case localFile of
           None \<Rightarrow>
             (Returns (Some (Err AssertionError ''localFile cannot be nil'' NoDetails)), w)
         | Some file \<Rightarrow>
             (case Now env w of
                (mtime, w1) \<Rightarrow>
                  (case OpenWrite env c remotePath 1638 mtime w1 of
                     ((writer, Some err), w2) \<Rightarrow> (Returns (Some err), w2)
                   | ((None, None), w2) \<Rightarrow> (Panics, w2)
                   | ((Some wr, None), w2) \<Rightarrow>
                       (case Copy env wr file w2 of
                          (err, w3) \<Rightarrow> (Returns err, Close env wr w3))))))"

section \<open>The state diff of the device watcher\<close>

text \<open>
  \<^verbatim>\<open>DeviceStateChangedEvent{Serial, OldState, NewState}\<close>, as the tests build it.
\<close>

datatype DeviceStateChangedEvent = DeviceStateChangedEvent string DeviceState DeviceState

text \<open>
  Modelled from the spec: \<^verbatim>\<open>calculateStateDiffs\<close>, whose code is not among the sources
  (only its tests are). A snapshot map is the list of its entries, one per serial. The
  diff rules: for each serial in \<open>new\<close> but not \<open>old\<close>, emit
  \<^verbatim>\<open>{serial, Disconnected, new[serial]}\<close>; for each serial in \<open>old\<close> but not \<open>new\<close>, emit
  \<^verbatim>\<open>{serial, old[serial], Disconnected}\<close>; for each serial in both, if
  \<^verbatim>\<open>old[s] != new[s]\<close>, emit \<^verbatim>\<open>{serial, old[s], new[s]}\<close>; otherwise no event.
\<close>

definition calculateStateDiffs ::
  "(string \<times> DeviceState) list \<Rightarrow> (string \<times> DeviceState) list \<Rightarrow> DeviceStateChangedEvent list"
where
  "calculateStateDiffs old new =
     [DeviceStateChangedEvent serial StateDisconnected n.
        (serial, n) \<leftarrow> new, map_of old serial = None] @
     [DeviceStateChangedEvent serial was StateDisconnected.
        (serial, was) \<leftarrow> old, map_of new serial = None] @
     [DeviceStateChangedEvent s was n.
        (s, was) \<leftarrow> old, n \<leftarrow> (case map_of new s of None \<Rightarrow> [] | Some n \<Rightarrow> [n]), was \<noteq> n]"

text \<open>A list of entries is a snapshot map when no serial occurs twice.\<close>

definition snapshot :: "(string \<times> DeviceState) list \<Rightarrow> bool" where
  "snapshot m = distinct (map fst m)"

section \<open>An example environment\<close>

text \<open>
  A world that is the log of the I/O performed, an environment in which every operation
  logs itself and succeeds, and a device for it. Variants of it make the attribute query
  fail with a given message, and make the v2 shell stream hold the single packet
  \<^verbatim>\<open>04 00 00 00 00\<close> and the legacy shell stream break off.
\<close>

fun errorText :: "error \<Rightarrow> string" where
  "errorText (Err code msg d) = msg"
| "errorText (ErrorString msg) = msg"
| "errorText (ClientError operation d e) = operation @ '': '' @ errorText e"
| "errorText (Caused msg e) = msg @ '': '' @ errorText e"

definition respond :: "string \<Rightarrow> 'a \<Rightarrow> string list \<Rightarrow> ('a \<times> error option) \<times> string list" where
  "respond event result w = ((result, None), w @ [event])"

definition idleEnvironment :: "string list environment" where
  "idleEnvironment =
     \<lparr>isBlank = list_all asciiSpace,
      containsWhitespace = list_ex asciiSpace,
      parseDeviceState =
        (\<lambda>attr. (if attr = ''offline'' then StateOffline
                  else if attr = ''device'' then StateOnline
                  else if attr = ''unauthorized'' then StateUnauthorized
                  else StateInvalid, None)),
      Error = errorText,
      descriptorString = getTransportDescriptor,
      roundTripSingleResponse = (\<lambda>dial req. respond (''roundTrip '' @ req) ''device''),
      SendMessageString = (\<lambda>conn req w. (None, w @ [''send '' @ req])),
      SendMessage = (\<lambda>conn req w. (None, w @ [''send '' @ req])),
      ReadStatus = (\<lambda>conn req. respond ''status'' ''OKAY''),
      ReadUntilEof = (\<lambda>conn. respond ''read'' ''output''),
      ReadUntilEofV2WithStd =
        (\<lambda>conn stdout stderr w. (((0, None), stdout, stderr), w @ [''read v2''])),
      RoundTripSingleResponse = (\<lambda>conn req. respond (''roundTrip '' @ req) ''remount succeeded''),
      Close = (\<lambda>conn w. w @ [''close'']),
      NewSyncConn = (\<lambda>conn. conn),
      listDirEntries = (\<lambda>conn path. respond (''LIST '' @ path) (Some 2)),
      stat = (\<lambda>conn path.
        respond (''STAT '' @ path) (Some \<lparr>Name = path, Mode = 420, Size = 3, ModifiedAt = 0\<rparr>)),
      receiveFile = (\<lambda>conn path. respond (''RECV '' @ path) (Some 3)),
      sendFile = (\<lambda>conn path perms mtime. respond (''SEND '' @ path) (Some 4)),
      CopyN = (\<lambda>dst src n w. (None, w @ [''copy''])),
      Copy = (\<lambda>dst src w. (None, w @ [''copy''])),
      Now = (\<lambda>w. (0, w @ [''clock'']))\<rparr>"

definition exampleDevice :: "string list Device" where
  "exampleDevice =
     \<lparr>server = respond ''dial'' 1,
      descriptor = BySerial ''xyz'',
      deviceListFunc = respond ''devices'' []\<rparr>"

definition failingWith :: "string \<Rightarrow> string list environment" where
  "failingWith msg =
     idleEnvironment
       \<lparr>roundTripSingleResponse :=
          (\<lambda>dial req w. (([], Some (Err AdbError msg NoDetails)), w @ [''roundTrip '' @ req]))\<rparr>"

definition unknownPacketEnvironment :: "string list environment" where
  "unknownPacketEnvironment =
     idleEnvironment
       \<lparr>ReadUntilEofV2WithStd :=
          (\<lambda>conn stdout stderr w.
             case DecodeV2Data [4, 0, 0, 0, 0] stdout stderr of
               (exitCode, err, stdout', stderr') \<Rightarrow>
                 (((exitCode, err), stdout', stderr'), w @ [''read v2''])),
        ReadUntilEof :=
          (\<lambda>conn w.
             (([], Some (Err ConnectionResetError ''incomplete message'' NoDetails)),
              w @ [''read'']))\<rparr>"

text \<open>
  An error wrapped for a device: no error, or a client error that holds the device's
  descriptor.
\<close>

fun wrappedFor :: "'w Device \<Rightarrow> error option \<Rightarrow> bool" where
  "wrappedFor c None = True"
| "wrappedFor c (Some (ClientError operation d e)) = (d = descriptor c)"
| "wrappedFor c (Some e) = False"

section \<open>Lemmas about the decoder\<close>

lemma Uint32_le32: "Uint32 (le32 v) = v"
proof (rule bit_word_eqI)
  fix n :: nat
  assume n: "n < LENGTH(32)"
  consider "n < 8" | "8 \<le> n" "n < 16" | "16 \<le> n" "n < 24" | "24 \<le> n" "n < 32"
    using n by fastforce
  then show "bit (Uint32 (le32 v)) n = bit v n"
  proof cases
    case 1
    then show ?thesis by (auto simp add: Uint32_def le32_def bit_simps)
  next
    case 2
    then show ?thesis by (auto simp add: Uint32_def le32_def bit_simps)
  next
    case 3
    then show ?thesis by (auto simp add: Uint32_def le32_def bit_simps)
  next
    case 4
    then show ?thesis by (auto simp add: Uint32_def le32_def bit_simps)
  qed
qed

lemma length_le32: "length (le32 v) = 4"
  by (simp add: le32_def)

lemma unat_len32: "n < 2 ^ 32 \<Longrightarrow> unat (of_nat n :: 32 word) = n"
  by (simp add: unat_of_nat)

lemma length_packetBytes: "length (packetBytes pk) = 5 + length (snd pk)"
  by (simp add: packetBytes_def length_le32)

lemma streamBytes_Cons: "streamBytes (pk # ps) = packetBytes pk @ streamBytes ps"
  by (simp add: streamBytes_def)

lemma packetLoop_packet:
  assumes len: "length p < 2 ^ 32"
  shows "packetLoop (pre @ packetBytes (i, p) @ rest) (length pre) x so se =
    (case handlePacket i p x so se of
       Inl r \<Rightarrow> r
     | Inr (x', so', se') \<Rightarrow>
         packetLoop (pre @ packetBytes (i, p) @ rest) (length pre + 5 + length p) x' so' se')"
proof -
  let ?data = "pre @ packetBytes (i, p) @ rest"
  have hdr: "take 4 (drop (length pre + 1) ?data) = le32 (of_nat (length p))"
    by (simp add: packetBytes_def length_le32)
  have n: "unat (Uint32 (le32 (of_nat (length p)))) = length p"
    using len by (simp add: Uint32_le32 unat_len32)
  have body: "take (length p) (drop (length pre + 5) ?data) = p"
    by (simp add: packetBytes_def length_le32)
  have idb: "?data ! length pre = i"
    by (simp add: packetBytes_def)
  have lens: "length ?data = length pre + 5 + length p + length rest"
    by (simp add: length_packetBytes)
  show ?thesis
    apply (subst packetLoop.simps)
    apply (simp only: Let_def hdr n)
    apply (simp only: body)
    apply (simp only: idb lens)
    apply (simp add: handlePacket_def split: option.splits prod.splits)
    done
qed

lemma packetLoop_stream:
  fixes so :: "'o writer option" and se :: "'e writer option"
  assumes "wellFormed ps"
  shows "packetLoop (pre @ streamBytes ps @ rest) (length pre) x so se =
    (case runPackets ps x so se of
       Inl r \<Rightarrow> r
     | Inr (x', so', se') \<Rightarrow>
         packetLoop (pre @ streamBytes ps @ rest) (length pre + length (streamBytes ps))
           x' so' se')"
  using assms
proof (induction ps arbitrary: pre x so se)
  case Nil
  then show ?case by (simp add: streamBytes_def)
next
  case (Cons pk ps)
  obtain i p where pk: "pk = (i, p)" by (cases pk)
  have len: "length p < 2 ^ 32" using Cons.prems pk by (simp add: wellFormed_def)
  have rest: "wellFormed ps" using Cons.prems by (simp add: wellFormed_def)
  have IH: "packetLoop (pre @ packetBytes (i, p) @ streamBytes ps @ rest)
              (length pre + 5 + length p) x' so' se' =
    (case runPackets ps x' so' se' of
       Inl r \<Rightarrow> r
     | Inr (x'', so'', se'') \<Rightarrow>
         packetLoop (pre @ packetBytes (i, p) @ streamBytes ps @ rest)
           (length pre + 5 + length p + length (streamBytes ps)) x'' so'' se'')"
    for x' and so' :: "'o writer option" and se' :: "'e writer option"
    using Cons.IH [OF rest, of "pre @ packetBytes (i, p)" x' so' se']
    by (simp add: length_packetBytes add.assoc split: sum.splits prod.splits)
  show ?case
  proof (cases "handlePacket i p x so se")
    case (Inl r)
    then show ?thesis
      using packetLoop_packet [OF len, of pre i "streamBytes ps @ rest" x so se]
      by (simp add: pk streamBytes_Cons)
  next
    case (Inr st)
    obtain x' so' se' where st: "st = (x', so', se')" by (cases st)
    show ?thesis
      using packetLoop_packet [OF len, of pre i "streamBytes ps @ rest" x so se] Inr
        IH [of x' so' se']
      by (simp add: pk st streamBytes_Cons length_packetBytes add.assoc
            split: sum.splits prod.splits)
  qed
qed

lemma Write_Buffer: "Write (Buffer b) p = (Buffer (b @ p), None)"
  by (simp add: Buffer_def)

lemma writeTail_Buffer: "writeTail (Some (Buffer b)) t = Some (Buffer (b @ t))"
  by (simp add: writeTail_def Write_Buffer)

lemma exitFrom_Nil: "exitFrom x [] = x"
  by (simp add: exitFrom_def)

lemma exitFrom_Cons:
  "exitFrom x (pk # ps) =
     exitFrom (if fst pk = 3 \<and> snd pk \<noteq> [] then uint (snd pk ! 0) else x) ps"
  by (simp add: exitFrom_def Let_def hd_conv_nth)

lemma payloadsOf_Nil: "payloadsOf k [] = []"
  by (simp add: payloadsOf_def)

lemma payloadsOf_Cons:
  "payloadsOf k (pk # ps) = (if fst pk = k then snd pk @ payloadsOf k ps else payloadsOf k ps)"
  by (simp add: payloadsOf_def)

lemma runPackets_Buffer:
  "knownIds ps \<Longrightarrow>
   runPackets ps x (Some (Buffer out)) (Some (Buffer err)) =
     Inr (exitFrom x ps, Some (Buffer (out @ payloadsOf 1 ps)),
          Some (Buffer (err @ payloadsOf 2 ps)))"
proof (induction ps arbitrary: x out err)
  case Nil
  then show ?case by (simp add: exitFrom_Nil payloadsOf_Nil)
next
  case (Cons pk ps)
  from Cons.prems have ids: "fst pk = 1 \<or> fst pk = 2 \<or> fst pk = 3" and rest: "knownIds ps"
    by (simp_all add: knownIds_def)
  from ids show ?case
  proof (elim disjE)
    assume "fst pk = 1"
    then show ?thesis
      by (simp add: handlePacket_def Write_Buffer Cons.IH [OF rest] exitFrom_Cons payloadsOf_Cons)
  next
    assume "fst pk = 2"
    then show ?thesis
      by (simp add: handlePacket_def Write_Buffer Cons.IH [OF rest] exitFrom_Cons payloadsOf_Cons)
  next
    assume "fst pk = 3"
    then show ?thesis
      by (simp add: handlePacket_def Write_Buffer Cons.IH [OF rest] exitFrom_Cons payloadsOf_Cons)
  qed
qed

lemma packetLoop_end: "packetLoop data (length data) x so se = Left (length data) x so se"
  by (subst packetLoop.simps) simp

lemma packetLoop_truncated:
  assumes "truncated t"
  shows "packetLoop (pre @ t) (length pre) x so se = Left (length pre) x (writeTail so t) se"
proof -
  have hdr: "drop (length pre + 1) (pre @ t) = drop 1 t"
    by simp
  from assms show ?thesis
    apply (subst packetLoop.simps)
    apply (simp only: hdr Let_def)
    apply (auto simp add: truncated_def)
    done
qed

lemma DecodeV2Data_Buffer:
  assumes wf: "wellFormed ps" and ids: "knownIds ps" and tail: "t = [] \<or> truncated t"
  shows "DecodeV2Data (streamBytes ps @ t) (Some (Buffer out)) (Some (Buffer err)) =
    (exitCodeOf ps, None, Some (Buffer (out @ payloadsOf 1 ps @ t)),
     Some (Buffer (err @ payloadsOf 2 ps)))"
proof -
  have loop: "packetLoop (streamBytes ps @ t) 0 0 (Some (Buffer out)) (Some (Buffer err)) =
      packetLoop (streamBytes ps @ t) (length (streamBytes ps)) (exitFrom 0 ps)
        (Some (Buffer (out @ payloadsOf 1 ps))) (Some (Buffer (err @ payloadsOf 2 ps)))"
    using packetLoop_stream [OF wf, of "[]" t 0 "Some (Buffer out)" "Some (Buffer err)"]
    by (simp add: runPackets_Buffer [OF ids])
  from tail show ?thesis
  proof
    assume "t = []"
    then show ?thesis
      using loop by (simp add: DecodeV2Data_def exitCodeOf_def packetLoop_end)
  next
    assume tr: "truncated t"
    show ?thesis
      using loop
      by (simp add: DecodeV2Data_def exitCodeOf_def writeTail_Buffer packetLoop_truncated [OF tr])
  qed
qed

lemma reliable_Write:
  assumes "reliable (Some w)"
  shows "\<exists>w'. Write w p = (w', None) \<and> reliable (Some w')"
proof (cases w)
  case (Writer s f)
  obtain s' e where fs: "f s p = (s', e)" by (cases "f s p")
  from assms Writer have "snd (f s p) = None" by (simp add: reliable_def)
  with fs have "e = None" by simp
  with fs Writer assms show ?thesis by (simp add: reliable_def)
qed

lemma handlePacket_reliable:
  assumes "i = 1 \<or> i = 2 \<or> i = 3" and "reliable so" and "reliable se"
  shows "\<exists>x' so' se'. handlePacket i p x so se = Inr (x', so', se') \<and> reliable so' \<and> reliable se'"
proof -
  consider "i = 1" "so = None" | w where "i = 1" "so = Some w"
    | "i = 2" "se = None" | w where "i = 2" "se = Some w" | "i = 3"
    using assms(1) by (cases so; cases se) auto
  then show ?thesis
  proof cases
    case 1
    with assms show ?thesis by (simp add: handlePacket_def)
  next
    case 2
    with assms reliable_Write [of w p] show ?thesis by (auto simp add: handlePacket_def)
  next
    case 3
    with assms show ?thesis by (simp add: handlePacket_def)
  next
    case 4
    with assms reliable_Write [of w p] show ?thesis by (auto simp add: handlePacket_def)
  next
    case 5
    with assms show ?thesis by (simp add: handlePacket_def)
  qed
qed

lemma runPackets_reliable:
  "knownIds ps \<Longrightarrow> reliable so \<Longrightarrow> reliable se \<Longrightarrow>
   \<exists>x' so' se'. runPackets ps x so se = Inr (x', so', se') \<and> reliable so' \<and> reliable se'"
proof (induction ps arbitrary: x so se)
  case Nil
  then show ?case by simp
next
  case (Cons pk ps)
  from Cons.prems(1) have ids: "fst pk = 1 \<or> fst pk = 2 \<or> fst pk = 3" and rest: "knownIds ps"
    by (simp_all add: knownIds_def)
  from handlePacket_reliable [OF ids Cons.prems(2,3)]
  obtain x1 so1 se1 where
    h: "handlePacket (fst pk) (snd pk) x so se = Inr (x1, so1, se1)" "reliable so1" "reliable se1"
    by blast
  from Cons.IH [OF rest h(2,3)] h(1) show ?case by simp
qed

lemma handlePacket_no_parseFailure:
  assumes "i = 1 \<or> i = 2 \<or> i = 3"
  shows "handlePacket i p x so se = Inl r \<Longrightarrow> \<not> parseFailure r"
  using assms
  by (auto simp add: handlePacket_def split: option.splits prod.splits if_splits)

lemma runPackets_no_parseFailure:
  "knownIds ps \<Longrightarrow> runPackets ps x so se = Inl r \<Longrightarrow> \<not> parseFailure r"
proof (induction ps arbitrary: x so se)
  case Nil
  then show ?case by simp
next
  case (Cons pk ps)
  from Cons.prems(1) have ids: "fst pk = 1 \<or> fst pk = 2 \<or> fst pk = 3" and rest: "knownIds ps"
    by (simp_all add: knownIds_def)
  show ?case
  proof (cases "handlePacket (fst pk) (snd pk) x so se")
    case (Inl r')
    with Cons.prems(2) have "r' = r" by simp
    with Inl handlePacket_no_parseFailure [OF ids] show ?thesis by blast
  next
    case (Inr st)
    obtain x1 so1 se1 where st: "st = (x1, so1, se1)" by (cases st)
    from Cons.prems(2) Inr st have "runPackets ps x1 so1 se1 = Inl r" by simp
    from Cons.IH [OF rest this] show ?thesis .
  qed
qed

lemma handlePacket_unknown:
  "i \<noteq> 1 \<Longrightarrow> i \<noteq> 2 \<Longrightarrow> i \<noteq> 3 \<Longrightarrow>
   handlePacket i p x so se =
     Inl (Returned 0 (Some (Err ParseError (''unknown packet ID: '' @ Itoa (unat i)) NoDetails))
            so se)"
  by (simp add: handlePacket_def)

lemma DecodeV2Data_unknown:
  fixes so :: "'o writer option" and se :: "'e writer option"
  assumes wf: "wellFormed ps" and ids: "knownIds ps" and len: "length p < 2 ^ 32"
    and bad: "i \<noteq> 1" "i \<noteq> 2" "i \<noteq> 3" and rel: "reliable so" "reliable se"
  shows "\<exists>so' se'. DecodeV2Data (streamBytes ps @ packetBytes (i, p) @ rest) so se =
    (0, Some (Err ParseError (''unknown packet ID: '' @ Itoa (unat i)) NoDetails), so', se')"
proof -
  from runPackets_reliable [OF ids rel, of 0]
  obtain x1 so1 se1 where run: "runPackets ps 0 so se = Inr (x1, so1, se1)" by blast
  have "packetLoop (streamBytes ps @ packetBytes (i, p) @ rest) 0 0 so se =
      packetLoop (streamBytes ps @ packetBytes (i, p) @ rest) (length (streamBytes ps)) x1 so1 se1"
    using packetLoop_stream [OF wf, of "[]" "packetBytes (i, p) @ rest" 0 so se] run by simp
  also have "\<dots> = Returned 0
      (Some (Err ParseError (''unknown packet ID: '' @ Itoa (unat i)) NoDetails)) so1 se1"
    by (simp add: packetLoop_packet [OF len] handlePacket_unknown [OF bad])
  finally show ?thesis by (simp add: DecodeV2Data_def)
qed

lemma DecodeV2Data_no_ParseError:
  fixes so :: "'o writer option" and se :: "'e writer option"
  assumes wf: "wellFormed ps" and ids: "knownIds ps" and tail: "t = [] \<or> truncated t"
  shows "\<not> isParseError (fst (snd (DecodeV2Data (streamBytes ps @ t) so se)))"
proof (cases "runPackets ps 0 so se")
  case (Inl r)
  from runPackets_no_parseFailure [OF ids Inl] have "\<not> parseFailure r" .
  moreover have "packetLoop (streamBytes ps @ t) 0 0 so se = r"
    using packetLoop_stream [OF wf, of "[]" t 0 so se] Inl by simp
  ultimately show ?thesis
    by (cases r) (simp_all add: DecodeV2Data_def)
next
  case (Inr st)
  obtain x1 so1 se1 where st: "st = (x1, so1, se1)" by (cases st)
  have loop: "packetLoop (streamBytes ps @ t) 0 0 so se =
      packetLoop (streamBytes ps @ t) (length (streamBytes ps)) x1 so1 se1"
    using packetLoop_stream [OF wf, of "[]" t 0 so se] Inr st by simp
  from tail show ?thesis
  proof
    assume "t = []"
    then show ?thesis using loop by (simp add: DecodeV2Data_def packetLoop_end)
  next
    assume tr: "truncated t"
    show ?thesis using loop by (simp add: DecodeV2Data_def packetLoop_truncated [OF tr])
  qed
qed

lemma reliable_Buffer: "reliable (Some (Buffer b))"
  by (simp add: reliable_def Buffer_def)

section \<open>Claims about DecodeV2Data\<close>

text \<open>
  Claim C1, as amended. For every stream that is the concatenation of well-formed packets
  whose ids are all among 1, 2 and 3, \<^verbatim>\<open>DecodeV2Data\<close> with two buffers as sinks
  appends to the stdout buffer the payloads of the id-1 packets in order, appends to the
  stderr buffer the payloads of the id-2 packets in order, returns no error, and returns
  as exit code the first payload byte of the last id-3 packet with a non-empty payload,
  or 0 when there is none. The witness is the scenario of the specification:
  \<^verbatim>\<open>01 05 00 00 00 'hello' 02 03 00 00 00 'err' 03 01 00 00 00 2A\<close> gives stdout
  \<^verbatim>\<open>hello\<close>, stderr \<^verbatim>\<open>err\<close> and exit code 42.
\<close>

theorem DecodeV2Data_known_stream:
  assumes "wellFormed ps" and "knownIds ps"
  shows "DecodeV2Data (streamBytes ps) (Some (Buffer out)) (Some (Buffer err)) =
    (exitCodeOf ps, None, Some (Buffer (out @ payloadsOf 1 ps)),
     Some (Buffer (err @ payloadsOf 2 ps)))"
  using DecodeV2Data_Buffer [OF assms, of "[]" out err] by simp

theorem DecodeV2Data_known_stream_witness:
  "wellFormed [(1, [104, 101, 108, 108, 111]), (2, [101, 114, 114]), (3, [42])] \<and>
   knownIds [(1, [104, 101, 108, 108, 111]), (2, [101, 114, 114]), (3, [42])] \<and>
   DecodeV2Data
     [1, 5, 0, 0, 0, 104, 101, 108, 108, 111, 2, 3, 0, 0, 0, 101, 114, 114, 3, 1, 0, 0, 0, 42]
     (Some (Buffer [])) (Some (Buffer [])) =
   (42, None, Some (Buffer [104, 101, 108, 108, 111]), Some (Buffer [101, 114, 114]))"
  using DecodeV2Data_known_stream
    [of "[(1, [104, 101, 108, 108, 111]), (2, [101, 114, 114]), (3, [42])]" "[]" "[]"]
  by (simp add: wellFormed_def knownIds_def streamBytes_def packetBytes_def le32_def
      exitCodeOf_def exitFrom_def payloadsOf_def)

text \<open>
  The claim as first stated asks nothing of the packet ids. The single packet
  \<^verbatim>\<open>04 00 00 00 00\<close> (id 4, length 0, no payload) is a well-formed concatenation of
  packets, and the decoder returns a \<^verbatim>\<open>ParseError\<close> on it.
\<close>

theorem DecodeV2Data_unknown_id_counterexample:
  "wellFormed [(4, [])] \<and> streamBytes [(4, [])] = [4, 0, 0, 0, 0] \<and>
   DecodeV2Data [4, 0, 0, 0, 0] (Some (Buffer [])) (Some (Buffer [])) =
     (0, Some (Err ParseError ''unknown packet ID: 4'' NoDetails),
      Some (Buffer []), Some (Buffer []))"
  by (simp add: wellFormed_def streamBytes_def packetBytes_def le32_def DecodeV2Data_def
      packetLoop.simps Uint32_def Itoa.simps digit_def)

text \<open>
  Claim C3. For every input made of well-formed packets with ids among 1, 2 and 3 followed
  by a non-empty trailing fragment that is shorter than 5 bytes, or whose header declares
  more payload than remains, \<^verbatim>\<open>DecodeV2Data\<close> returns no error and the stdout buffer
  receives the id-1 payloads and then the whole fragment, header bytes included. The
  witness holds the scenario of the specification: \<^verbatim>\<open>01 05 00 00 00 'h' 'i'\<close> gives
  the seven raw bytes on stdout and exit code 0.
\<close>

theorem DecodeV2Data_truncated_tail:
  assumes "wellFormed ps" and "knownIds ps" and "truncated t"
  shows "DecodeV2Data (streamBytes ps @ t) (Some (Buffer out)) (Some (Buffer err)) =
    (exitCodeOf ps, None, Some (Buffer (out @ payloadsOf 1 ps @ t)),
     Some (Buffer (err @ payloadsOf 2 ps)))"
  using DecodeV2Data_Buffer [OF assms(1,2), of t out err] assms(3) by simp

theorem DecodeV2Data_truncated_tail_witness:
  "truncated [1, 5, 0, 0, 0, 104, 105] \<and>
   DecodeV2Data [1, 5, 0, 0, 0, 104, 105] (Some (Buffer [])) (Some (Buffer [])) =
     (0, None, Some (Buffer [1, 5, 0, 0, 0, 104, 105]), Some (Buffer [])) \<and>
   truncated [2, 0] \<and>
   DecodeV2Data [1, 2, 0, 0, 0, 104, 105, 3, 1, 0, 0, 0, 7, 2, 0]
       (Some (Buffer [])) (Some (Buffer [])) =
     (7, None, Some (Buffer [104, 105, 2, 0]), Some (Buffer []))"
  using DecodeV2Data_truncated_tail [of "[]" "[1, 5, 0, 0, 0, 104, 105]" "[]" "[]"]
    DecodeV2Data_truncated_tail [of "[(1, [104, 105]), (3, [7])]" "[2, 0]" "[]" "[]"]
  by (simp add: wellFormed_def knownIds_def streamBytes_def packetBytes_def le32_def
      exitCodeOf_def exitFrom_def payloadsOf_def truncated_def Uint32_def)

text \<open>
  Claim C6. Let the input start with well-formed packets whose ids are among 1, 2 and 3.
  If a complete packet with any other id comes next, whatever follows it, and the sinks
  accept every write, \<^verbatim>\<open>DecodeV2Data\<close> returns exit code 0 and the \<^verbatim>\<open>ParseError\<close>
  \<^verbatim>\<open>unknown packet ID: <id>\<close> naming that id. If instead nothing or a truncated
  fragment comes next, so that every complete packet has a known id, the error returned
  is not a \<^verbatim>\<open>ParseError\<close>, whatever the sinks are and do.
\<close>

theorem DecodeV2Data_ParseError_iff_unknown_id:
  fixes so :: "'o writer option" and se :: "'e writer option"
  assumes "wellFormed ps" and "knownIds ps"
  shows "(length p < 2 ^ 32 \<and> i \<noteq> 1 \<and> i \<noteq> 2 \<and> i \<noteq> 3 \<and> reliable so \<and> reliable se \<longrightarrow>
            fst (DecodeV2Data (streamBytes ps @ packetBytes (i, p) @ rest) so se) = 0 \<and>
            fst (snd (DecodeV2Data (streamBytes ps @ packetBytes (i, p) @ rest) so se)) =
              Some (Err ParseError (''unknown packet ID: '' @ Itoa (unat i)) NoDetails)) \<and>
         (t = [] \<or> truncated t \<longrightarrow>
            \<not> isParseError (fst (snd (DecodeV2Data (streamBytes ps @ t) so se))))"
proof (intro conjI impI)
  assume h: "length p < 2 ^ 32 \<and> i \<noteq> 1 \<and> i \<noteq> 2 \<and> i \<noteq> 3 \<and> reliable so \<and> reliable se"
  then obtain so' se' where
    "DecodeV2Data (streamBytes ps @ packetBytes (i, p) @ rest) so se =
      (0, Some (Err ParseError (''unknown packet ID: '' @ Itoa (unat i)) NoDetails), so', se')"
    using DecodeV2Data_unknown [OF assms, of p i so se rest] by blast
  then show "fst (DecodeV2Data (streamBytes ps @ packetBytes (i, p) @ rest) so se) = 0"
    and "fst (snd (DecodeV2Data (streamBytes ps @ packetBytes (i, p) @ rest) so se)) =
              Some (Err ParseError (''unknown packet ID: '' @ Itoa (unat i)) NoDetails)"
    by simp_all
next
  assume "t = [] \<or> truncated t"
  then show "\<not> isParseError (fst (snd (DecodeV2Data (streamBytes ps @ t) so se)))"
    by (rule DecodeV2Data_no_ParseError [OF assms])
qed

theorem DecodeV2Data_ParseError_iff_unknown_id_witness:
  "fst (DecodeV2Data [1, 1, 0, 0, 0, 97, 9, 2, 0, 0, 0, 98, 99, 1, 0]
          (Some (Buffer [])) (Some (Buffer []))) = 0 \<and>
   fst (snd (DecodeV2Data [1, 1, 0, 0, 0, 97, 9, 2, 0, 0, 0, 98, 99, 1, 0]
          (Some (Buffer [])) (Some (Buffer [])))) =
     Some (Err ParseError ''unknown packet ID: 9'' NoDetails) \<and>
   \<not> isParseError (fst (snd (DecodeV2Data [1, 1, 0, 0, 0, 97, 9, 2]
          (Some (Buffer [])) (Some (Buffer [])))))"
  using DecodeV2Data_ParseError_iff_unknown_id
    [of "[(1, [97])]" "[98, 99]" 9 "Some (Buffer [])" "Some (Buffer [])" "[1, 0]" "[9, 2]"]
  by (simp add: wellFormed_def knownIds_def streamBytes_def packetBytes_def le32_def
      truncated_def reliable_Buffer Itoa.simps digit_def)

text \<open>
  Claim C2 does not hold of the source. \<^verbatim>\<open>offset\<close> is not reset between reads, so when two
  reads deliver one complete packet each, the second packet is skipped; and a packet
  split over two reads is written raw to stdout. \<^verbatim>\<open>DecodeV2Data\<close> on the concatenation
  decodes both inputs to \<^verbatim>\<open>ab\<close>.
\<close>

theorem DecodeDataFromReader_depends_on_reads:
  "DecodeDataFromReader [([1, 1, 0, 0, 0, 97], None), ([1, 1, 0, 0, 0, 98], None)]
       (Some (Buffer [])) (Some (Buffer [])) =
     (0, None, Some (Buffer [97]), Some (Buffer [])) \<and>
   DecodeDataFromReader [([1, 2, 0, 0, 0, 97], None), ([98], None)]
       (Some (Buffer [])) (Some (Buffer [])) =
     (0, None, Some (Buffer [1, 2, 0, 0, 0, 97, 98]), Some (Buffer [])) \<and>
   DecodeV2Data ([1, 1, 0, 0, 0, 97] @ [1, 1, 0, 0, 0, 98])
       (Some (Buffer [])) (Some (Buffer [])) =
     (0, None, Some (Buffer [97, 98]), Some (Buffer [])) \<and>
   DecodeV2Data ([1, 2, 0, 0, 0, 97] @ [98])
       (Some (Buffer [])) (Some (Buffer [])) =
     (0, None, Some (Buffer [97, 98]), Some (Buffer []))"
  by (simp add: DecodeDataFromReader_def DecodeV2Data_def packetLoop.simps Uint32_def
      Buffer_def writeTail_def)

text \<open>
  When a single read delivers the whole stream, the two decoders agree.
\<close>

lemma DecodeDataFromReader_single_read:
  assumes "data \<noteq> []" and "length data \<le> 4096"
  shows "DecodeDataFromReader [(data, None)] so se = DecodeV2Data data so se"
    and "DecodeDataFromReader [(data, Some EOF)] so se = DecodeV2Data data so se"
  using assms
  by (simp_all add: DecodeDataFromReader_def DecodeV2Data_def split: loop_end.splits)

section \<open>Lemmas about regular expressions\<close>

lemma nullable_lang: "nullable r = ([] \<in> lang r)"
  by (induction r) (auto intro: kleene.empty)

lemma kleene_Cons:
  "(c # w \<in> kleene A) = (\<exists>u v. w = u @ v \<and> c # u \<in> A \<and> v \<in> kleene A)"
proof
  assume "c # w \<in> kleene A"
  then show "\<exists>u v. w = u @ v \<and> c # u \<in> A \<and> v \<in> kleene A"
  proof (induction "c # w" arbitrary: w rule: kleene.induct)
    case (more u v)
    show ?case
    proof (cases u)
      case Nil
      with more show ?thesis by simp
    next
      case (Cons d u')
      with more.hyps(1,2,4) show ?thesis by auto
    qed
  qed
next
  assume "\<exists>u v. w = u @ v \<and> c # u \<in> A \<and> v \<in> kleene A"
  then obtain u v where "w = u @ v" "c # u \<in> A" "v \<in> kleene A" by blast
  then show "c # w \<in> kleene A"
    using kleene.more [of "c # u" A v] by simp
qed

lemma deriv_lang: "(w \<in> lang (deriv c r)) = (c # w \<in> lang r)"
proof (induction r arbitrary: w)
  case (Cat r s)
  have "(c # w \<in> lang (Cat r s)) =
      (([] \<in> lang r \<and> c # w \<in> lang s) \<or>
       (\<exists>u v. w = u @ v \<and> c # u \<in> lang r \<and> v \<in> lang s))"
    by (auto simp add: Cons_eq_append_conv)
  with Cat show ?case
    by (auto simp add: nullable_lang)
next
  case (Star r)
  then show ?case by (auto simp add: kleene_Cons)
qed auto

lemma matchesPrefix_lang:
  "matchesPrefix r s = (\<exists>mid post. s = mid @ post \<and> mid \<in> lang r)"
proof (induction s arbitrary: r)
  case Nil
  then show ?case by (simp add: nullable_lang)
next
  case (Cons c cs)
  have "(\<exists>mid post. c # cs = mid @ post \<and> mid \<in> lang r) =
      ([] \<in> lang r \<or> (\<exists>mid post. cs = mid @ post \<and> c # mid \<in> lang r))"
    by (auto simp add: Cons_eq_append_conv)
  with Cons show ?case
    by (simp add: nullable_lang deriv_lang)
qed

lemma MatchString_hasMatch: "MatchString r s = hasMatch r s"
proof (induction s)
  case Nil
  then show ?case by (simp add: hasMatch_def nullable_lang)
next
  case (Cons c cs)
  have "hasMatch r (c # cs) =
      ((\<exists>mid post. c # cs = mid @ post \<and> mid \<in> lang r) \<or> hasMatch r cs)"
    unfolding hasMatch_def
  proof
    assume "\<exists>pre mid post. c # cs = pre @ mid @ post \<and> mid \<in> lang r"
    then obtain pre mid post where h: "c # cs = pre @ mid @ post" "mid \<in> lang r" by blast
    show "(\<exists>mid post. c # cs = mid @ post \<and> mid \<in> lang r) \<or>
        (\<exists>pre mid post. cs = pre @ mid @ post \<and> mid \<in> lang r)"
    proof (cases pre)
      case Nil
      with h show ?thesis by auto
    next
      case (Cons d pre')
      with h have "cs = pre' @ mid @ post" by simp
      with h(2) show ?thesis by blast
    qed
  next
    assume "(\<exists>mid post. c # cs = mid @ post \<and> mid \<in> lang r) \<or>
        (\<exists>pre mid post. cs = pre @ mid @ post \<and> mid \<in> lang r)"
    then show "\<exists>pre mid post. c # cs = pre @ mid @ post \<and> mid \<in> lang r"
    proof
      assume "\<exists>mid post. c # cs = mid @ post \<and> mid \<in> lang r"
      then obtain mid post where "c # cs = [] @ mid @ post" "mid \<in> lang r" by auto
      then show ?thesis by blast
    next
      assume "\<exists>pre mid post. cs = pre @ mid @ post \<and> mid \<in> lang r"
      then obtain pre mid post where "c # cs = (c # pre) @ mid @ post" "mid \<in> lang r" by auto
      then show ?thesis by blast
    qed
  qed
  with Cons show ?case
    by (simp add: matchesPrefix_lang [of r "c # cs"] del: matchesPrefix.simps)
qed

lemma lang_literal: "lang (literal s) = {s}"
  by (induction s) auto

lemma kleene_Dot: "kleene (lang Dot) = {m. CHR 0x0A \<notin> set m}"
proof (rule set_eqI, rule iffI)
  fix m :: string
  assume "m \<in> kleene (lang Dot)"
  then show "m \<in> {m. CHR 0x0A \<notin> set m}"
    by (induction rule: kleene.induct) auto
next
  fix m :: string
  assume "m \<in> {m. CHR 0x0A \<notin> set m}"
  then show "m \<in> kleene (lang Dot)"
  proof (induction m)
    case Nil
    show ?case by (rule kleene.empty)
  next
    case (Cons c m)
    then have "[c] \<in> lang Dot" and "m \<in> kleene (lang Dot)" by auto
    then have "[c] @ m \<in> kleene (lang Dot)" by (rule kleene.more)
    then show ?case by simp
  qed
qed

lemma lang_deviceNotFoundMessagePattern:
  "lang deviceNotFoundMessagePattern =
     {''device not found''} \<union>
     {''device '' @ [CHR 0x27] @ m @ [CHR 0x27] @ '' not found'' | m. CHR 0x0A \<notin> set m}"
proof -
  have star: "lang (Star Dot) = {m. CHR 0x0A \<notin> set m}"
    by (simp add: kleene_Dot del: lang.simps(4))
  show ?thesis
    unfolding deviceNotFoundMessagePattern_def
    by (auto simp add: lang_literal star simp del: literal.simps lang.simps(7))
qed

section \<open>Claim about adbServerError\<close>

text \<open>
  Claim C5. For every request and every server message, the error that
  \<^verbatim>\<open>adbServerError\<close> builds has code \<^verbatim>\<open>DeviceNotFound\<close> exactly when the message
  contains a match of \<^verbatim>\<open>device( '.*')? not found\<close>, and code \<^verbatim>\<open>AdbError\<close> exactly when it
  does not; its details are the request and the raw server message, unchanged. A message
  contains a match exactly when it contains \<^verbatim>\<open>device not found\<close>, or
  \<^verbatim>\<open>device '\<close>, any characters other than a newline, and \<^verbatim>\<open>' not found\<close>.
\<close>

theorem adbServerError_classification:
  "(Code (adbServerError request serverMsg) = DeviceNotFound) =
     hasMatch deviceNotFoundMessagePattern serverMsg \<and>
   (Code (adbServerError request serverMsg) = AdbError) =
     (\<not> hasMatch deviceNotFoundMessagePattern serverMsg) \<and>
   Details (adbServerError request serverMsg) = ErrorResponseDetails request serverMsg \<and>
   hasMatch deviceNotFoundMessagePattern serverMsg =
     ((\<exists>pre post. serverMsg = pre @ ''device not found'' @ post) \<or>
      (\<exists>pre m post.
         serverMsg = pre @ ''device '' @ [CHR 0x27] @ m @ [CHR 0x27] @ '' not found'' @ post \<and>
         CHR 0x0A \<notin> set m))"
proof -
  have "hasMatch deviceNotFoundMessagePattern serverMsg =
     ((\<exists>pre post. serverMsg = pre @ ''device not found'' @ post) \<or>
      (\<exists>pre m post.
         serverMsg = pre @ ''device '' @ [CHR 0x27] @ m @ [CHR 0x27] @ '' not found'' @ post \<and>
         CHR 0x0A \<notin> set m))"
    unfolding hasMatch_def lang_deviceNotFoundMessagePattern
    by (auto; metis append.assoc append_Cons append_Nil)
  then show ?thesis
    by (simp add: adbServerError_def MatchString_hasMatch)
qed

theorem adbServerError_classification_witness:
  "Code (adbServerError ''host:transport:xyz''
      (''device '' @ [CHR 0x27] @ ''xyz'' @ [CHR 0x27] @ '' not found'')) = DeviceNotFound \<and>
   Code (adbServerError [] ''device not found'') = DeviceNotFound \<and>
   Code (adbServerError ''host:transport:xyz'' ''device offline'') = AdbError \<and>
   Code (adbServerError ''host:transport:xyz''
      (''device '' @ [CHR 0x27] @ ''x'' @ [CHR 0x0A] @ ''z'' @ [CHR 0x27] @ '' not found'')) = AdbError"
  using adbServerError_classification [of "''host:transport:xyz''"
      "''device '' @ [CHR 0x27] @ ''xyz'' @ [CHR 0x27] @ '' not found''"]
    adbServerError_classification [of "[]" "''device not found''"]
    adbServerError_classification [of "''host:transport:xyz''" "''device offline''"]
    adbServerError_classification [of "''host:transport:xyz''"
      "''device '' @ [CHR 0x27] @ ''x'' @ [CHR 0x0A] @ ''z'' @ [CHR 0x27] @ '' not found''"]
  by (simp add: MatchString_hasMatch [symmetric] deviceNotFoundMessagePattern_def)

section \<open>Claim about prepareCommandLine\<close>

lemma firstQuoted_None: "(firstQuoted args = None) = (\<forall>arg \<in> set args. doubleQuote \<notin> set arg)"
  by (induction args) auto

lemma firstQuoted_Some:
  "firstQuoted args = Some i \<Longrightarrow>
     i < length args \<and> doubleQuote \<in> set (args ! i) \<and> (\<forall>j < i. doubleQuote \<notin> set (args ! j))"
proof (induction args arbitrary: i)
  case Nil
  then show ?case by simp
next
  case (Cons arg args)
  show ?case
  proof (cases "doubleQuote \<in> set arg")
    case True
    with Cons.prems show ?thesis by simp
  next
    case False
    with Cons.prems obtain k where k: "firstQuoted args = Some k" "i = Suc k" by auto
    from Cons.IH [OF k(1)] False k(2) show ?thesis
      by (auto simp add: nth_Cons split: nat.splits)
  qed
qed

lemma quoteLoop_suffix:
  "quoteLoop cw (length done) (done @ args) =
     (case firstQuoted args of
        Some k \<Rightarrow>
          Inl (Err ParseError
            (''arg at index '' @ Itoa (length done + k)
               @ '' contains an invalid double quote: '' @ args ! k) NoDetails)
      | None \<Rightarrow> Inr (done @ map (quoted cw) args))"
proof (induction args arbitrary: "done")
  case Nil
  show ?case by (subst quoteLoop.simps) simp
next
  case (Cons arg args)
  have step: "quoteLoop cw (length done) (done @ arg # args) =
      (if doubleQuote \<in> set arg then
         Inl (Err ParseError
           (''arg at index '' @ Itoa (length done)
              @ '' contains an invalid double quote: '' @ arg) NoDetails)
       else quoteLoop cw (length (done @ [quoted cw arg])) ((done @ [quoted cw arg]) @ args))"
    by (subst quoteLoop.simps) (simp add: quoted_def Let_def)
  show ?case
    unfolding step
    using Cons.IH [of "done @ [quoted cw arg]"]
    by (simp split: option.splits)
qed

lemma Join_Cons: "Join (a # elems) sep = (if elems = [] then a else a @ sep @ Join elems sep)"
  by (cases elems) simp_all

text \<open>
  Claim C8. For every command and argument list, \<^verbatim>\<open>prepareCommandLine\<close> returns: an
  \<^verbatim>\<open>AssertionError\<close> when the command is blank (this check comes first); otherwise, when
  some argument contains a double quote, a \<^verbatim>\<open>ParseError\<close> whose message gives the
  index of the first such argument; otherwise the command followed by the arguments,
  joined with single spaces, each argument that contains whitespace wrapped in double
  quotes and every other argument unchanged.
\<close>

theorem prepareCommandLine_result:
  "prepareCommandLine blank whitespace cmd args =
     (if blank cmd then Inl (Err AssertionError ''command cannot be empty'' NoDetails)
      else
        (case firstQuoted args of
           Some i \<Rightarrow>
             Inl (Err ParseError
               (''arg at index '' @ Itoa i @ '' contains an invalid double quote: '' @ args ! i)
               NoDetails)
         | None \<Rightarrow> Inr (Join (cmd # map (quoted whitespace) args) '' '')))"
  using quoteLoop_suffix [of whitespace "[]" args]
  by (simp add: prepareCommandLine_def Join_Cons split: option.splits)

lemma prepareCommandLine_examples:
  "prepareCommandLine (list_all asciiSpace) (list_ex asciiSpace) ''ls'' [''-l'', ''my dir''] =
     Inr (''ls -l '' @ [doubleQuote] @ ''my dir'' @ [doubleQuote]) \<and>
   prepareCommandLine (list_all asciiSpace) (list_ex asciiSpace) ''ls'' [] = Inr ''ls'' \<and>
   prepareCommandLine (list_all asciiSpace) (list_ex asciiSpace) ''echo''
       [''a'', ''b'' @ [doubleQuote]] =
     Inl (Err ParseError
       (''arg at index 1 contains an invalid double quote: b'' @ [doubleQuote]) NoDetails) \<and>
   prepareCommandLine (list_all asciiSpace) (list_ex asciiSpace) ''  '' [[doubleQuote]] =
     Inl (Err AssertionError ''command cannot be empty'' NoDetails)"
  by (simp add: prepareCommandLine_def quoteLoop.simps asciiSpace_def doubleQuote_def
      Itoa.simps digit_def)

section \<open>Claims about the Device facade\<close>

lemma Contains_iff: "Contains s substr = (\<exists>a b. s = a @ substr @ b)"
proof (induction s)
  case Nil
  show ?case by auto
next
  case (Cons c s)
  have "(\<exists>a b. c # s = a @ substr @ b) =
      ((\<exists>b. c # s = substr @ b) \<or> (\<exists>a b. s = a @ substr @ b))"
    by (auto simp add: Cons_eq_append_conv)
  with Cons show ?case by (auto simp add: prefix_def)
qed

text \<open>
  Claim C7. For every device, when the \<^verbatim>\<open>get-state\<close> attribute query fails with an error
  whose text contains \<^verbatim>\<open>unauthorized\<close>, \<^verbatim>\<open>State\<close> returns \<^verbatim>\<open>StateUnauthorized\<close> and no
  error; when the query fails with any other error, \<^verbatim>\<open>State\<close> returns \<^verbatim>\<open>StateInvalid\<close>
  and that error wrapped with the operation name \<^verbatim>\<open>State\<close> and the device's descriptor.
\<close>

theorem State_unauthorized_is_success:
  assumes "getAttribute env c ''get-state'' w = ((attr, Some err), w1)"
  shows "((\<exists>a b. Error env err = a @ ''unauthorized'' @ b) \<longrightarrow>
            State env c w = ((StateUnauthorized, None), w1)) \<and>
         (\<not> (\<exists>a b. Error env err = a @ ''unauthorized'' @ b) \<longrightarrow>
            State env c w =
              ((StateInvalid, Some (ClientError ''State'' (descriptor c) err)), w1))"
  using assms by (simp add: State_def Contains_iff wrapClientError_def)

theorem State_unauthorized_is_success_witness:
  "State (failingWith ''server error: device unauthorized.'') exampleDevice [] =
     ((StateUnauthorized, None), [''roundTrip host-serial:xyz:get-state'']) \<and>
   State (failingWith ''server error: device offline'') exampleDevice [] =
     ((StateInvalid,
       Some (ClientError ''State'' (BySerial ''xyz'')
         (Err AdbError ''server error: device offline'' NoDetails))),
      [''roundTrip host-serial:xyz:get-state''])"
proof -
  let ?e1 = "Err AdbError ''server error: device unauthorized.'' NoDetails"
  let ?e2 = "Err AdbError ''server error: device offline'' NoDetails"
  let ?w = "[''roundTrip host-serial:xyz:get-state'']"
  have g1: "getAttribute (failingWith ''server error: device unauthorized.'') exampleDevice
      ''get-state'' [] = (([], Some ?e1), ?w)"
    by (simp add: getAttribute_def failingWith_def idleEnvironment_def exampleDevice_def)
  have g2: "getAttribute (failingWith ''server error: device offline'') exampleDevice
      ''get-state'' [] = (([], Some ?e2), ?w)"
    by (simp add: getAttribute_def failingWith_def idleEnvironment_def exampleDevice_def)
  have t1: "Error (failingWith ''server error: device unauthorized.'') ?e1 =
      ''server error: device '' @ ''unauthorized'' @ ''.''"
    by (simp add: failingWith_def idleEnvironment_def)
  have "\<not> Contains (Error (failingWith ''server error: device offline'') ?e2) ''unauthorized''"
    by (simp add: failingWith_def idleEnvironment_def)
  then have t2: "\<not> (\<exists>a b. Error (failingWith ''server error: device offline'') ?e2 =
      a @ ''unauthorized'' @ b)"
    unfolding Contains_iff .
  have ex1: "\<exists>a b. Error (failingWith ''server error: device unauthorized.'') ?e1 =
      a @ ''unauthorized'' @ b"
    using t1 by blast
  from State_unauthorized_is_success [OF g1] ex1
  have s1: "State (failingWith ''server error: device unauthorized.'') exampleDevice [] =
      ((StateUnauthorized, None), ?w)"
    by blast
  from State_unauthorized_is_success [OF g2] t2
  have s2: "State (failingWith ''server error: device offline'') exampleDevice [] =
      ((StateInvalid, Some (ClientError ''State'' (descriptor exampleDevice) ?e2)), ?w)"
    by blast
  from s1 s2 show ?thesis by (simp add: exampleDevice_def)
qed

text \<open>
  Claim C10. \<^verbatim>\<open>Pull\<close> and \<^verbatim>\<open>Push\<close> with an empty remote path or a \<^verbatim>\<open>nil\<close> local file
  return an \<^verbatim>\<open>AssertionError\<close> and leave the world as it was, whatever the environment
  is: nothing is dialled, sent or read. The examples after the theorem run both on the
  logging environment, where a \<^verbatim>\<open>Pull\<close> that passes the checks opens two sessions.
\<close>

theorem Pull_Push_rejected_before_any_io:
  "Pull env c [] localFile w =
     (Returns (Some (Err AssertionError ''remotePath cannot be empty'' NoDetails)), w) \<and>
   Pull env c remotePath None w =
     (Returns (Some (Err AssertionError
        (if remotePath = [] then ''remotePath cannot be empty'' else ''localFile cannot be nil'')
        NoDetails)), w) \<and>
   Push env c localFile [] w =
     (Returns (Some (Err AssertionError ''remotePath cannot be empty'' NoDetails)), w) \<and>
   Push env c None remotePath w =
     (Returns (Some (Err AssertionError
        (if remotePath = [] then ''remotePath cannot be empty'' else ''localFile cannot be nil'')
        NoDetails)), w)"
  by (simp add: Pull_def Push_def)

lemma Pull_Push_examples:
  "Pull idleEnvironment exampleDevice [] (Some 9) [] =
     (Returns (Some (Err AssertionError ''remotePath cannot be empty'' NoDetails)), []) \<and>
   Push idleEnvironment exampleDevice None ''/sdcard/f'' [] =
     (Returns (Some (Err AssertionError ''localFile cannot be nil'' NoDetails)), []) \<and>
   Pull idleEnvironment exampleDevice ''/sdcard/f'' (Some 9) [] =
     (Returns None,
      [''dial'', ''send host:transport:xyz'', ''status'', ''send sync:'', ''status'',
       ''STAT /sdcard/f'', ''close'',
       ''dial'', ''send host:transport:xyz'', ''status'', ''send sync:'', ''status'',
       ''RECV /sdcard/f'', ''copy'', ''close''])"
  by (simp add: Pull_def Push_def Stat_def OpenRead_def getSyncConn_def dialDevice_def
      idleEnvironment_def exampleDevice_def respond_def wrapClientError_def)

text \<open>
  Claim C9 does not hold of the source. When the dial, the request and the status succeed
  and the v2 stream cannot be decoded, \<^verbatim>\<open>RunCommandV2WithStd\<close> returns the decoder's error
  as it is, and so does \<^verbatim>\<open>RunCommandV2\<close>; \<^verbatim>\<open>RunCommand\<close> wraps the error of its last
  read. The lemmas after the theorem show that every other return of an error in the
  listed operations is wrapped for the device.
\<close>

theorem RunCommandV2WithStd_returns_unwrapped_error:
  "fst (fst (RunCommandV2WithStd unknownPacketEnvironment exampleDevice None None ''ls'' [] [])) =
     (0, Some (Err ParseError ''unknown packet ID: 4'' NoDetails)) \<and>
   fst (RunCommandV2 unknownPacketEnvironment exampleDevice ''ls'' [] []) =
     (0, [], [], Some (Err ParseError ''unknown packet ID: 4'' NoDetails)) \<and>
   fst (RunCommand unknownPacketEnvironment exampleDevice ''ls'' [] []) =
     ([], Some (ClientError ''RunCommand'' (BySerial ''xyz'')
        (Err ConnectionResetError ''incomplete message'' NoDetails)))"
  by (simp add: RunCommandV2WithStd_def RunCommandV2_def RunCommand_def
      prepareCommandLine_def quoteLoop.simps dialDevice_def unknownPacketEnvironment_def
      idleEnvironment_def exampleDevice_def respond_def wrapClientError_def asciiSpace_def
      DecodeV2Data_def packetLoop.simps Uint32_def Itoa.simps digit_def Buffer_def)

lemma wrappedFor_wrapClientError: "wrappedFor c (wrapClientError err c operation)"
  by (cases err) (simp_all add: wrapClientError_def)

lemma attribute_operations_wrap:
  "wrappedFor c (snd (fst (Serial env c w)))"
  "wrappedFor c (snd (fst (DevicePath env c w)))"
  "wrappedFor c (snd (fst (State env c w)))"
  by (simp_all add: Serial_def DevicePath_def State_def wrappedFor_wrapClientError
      split: prod.splits option.splits)

lemma DeviceInfo_wraps: "wrappedFor c (snd (fst (DeviceInfo env c w)))"
  by (simp add: DeviceInfo_def wrappedFor_wrapClientError split: prod.splits option.splits)

lemma RunCommand_wraps: "wrappedFor c (snd (fst (RunCommand env c cmd args w)))"
  by (simp add: RunCommand_def Let_def wrappedFor_wrapClientError
      split: prod.splits option.splits sum.splits)

lemma Remount_wraps: "wrappedFor c (snd (fst (Remount env c w)))"
  by (simp add: Remount_def wrappedFor_wrapClientError
      split: prod.splits option.splits sum.splits)

lemma sync_operations_wrap:
  "wrappedFor c (snd (fst (ListDirEntries env c path w)))"
  "wrappedFor c (snd (fst (Stat env c path w)))"
  "wrappedFor c (snd (fst (OpenRead env c path w)))"
  "wrappedFor c (snd (fst (OpenWrite env c path perms mtime w)))"
  by (simp_all add: ListDirEntries_def Stat_def OpenRead_def OpenWrite_def
      wrappedFor_wrapClientError split: prod.splits option.splits sum.splits)

lemma RunCommandV2WithStd_last_error:
  assumes "prepareCommandLine (isBlank env) (containsWhitespace env) cmd args = Inr cmd'"
    and "dialDevice env c w = (Inr conn, w1)"
    and "SendMessage env conn (''shell,v2,TERM=xterm-256color,raw:'' @ cmd') w1 = (None, w2)"
    and "ReadStatus env conn (''shell,v2,TERM=xterm-256color,raw:'' @ cmd') w2 =
           ((status, None), w3)"
    and "ReadUntilEofV2WithStd env conn stdout stderr w3 = (((exitCode, err), so, se), w4)"
  shows "RunCommandV2WithStd env c stdout stderr cmd args w =
           (((exitCode, err), so, se), Close env conn w4)"
  using assms by (simp add: RunCommandV2WithStd_def)

section \<open>Claim about calculateStateDiffs\<close>

lemma set_calculateStateDiffs:
  assumes "snapshot old" and "snapshot new"
  shows "(e \<in> set (calculateStateDiffs old new)) =
    ((\<exists>s n. e = DeviceStateChangedEvent s StateDisconnected n \<and>
        map_of new s = Some n \<and> map_of old s = None) \<or>
     (\<exists>s was. e = DeviceStateChangedEvent s was StateDisconnected \<and>
        map_of old s = Some was \<and> map_of new s = None) \<or>
     (\<exists>s was n. e = DeviceStateChangedEvent s was n \<and>
        map_of old s = Some was \<and> map_of new s = Some n \<and> was \<noteq> n))"
  using assms
  by (auto simp add: calculateStateDiffs_def snapshot_def split: option.splits)

lemma calculateStateDiffs_map_filter:
  "calculateStateDiffs old new =
     map (\<lambda>(serial, n). DeviceStateChangedEvent serial StateDisconnected n)
       (filter (\<lambda>(serial, n). map_of old serial = None) new) @
     map (\<lambda>(serial, was). DeviceStateChangedEvent serial was StateDisconnected)
       (filter (\<lambda>(serial, was). map_of new serial = None) old) @
     map (\<lambda>(s, was). DeviceStateChangedEvent s was (the (map_of new s)))
       (filter (\<lambda>(s, was). map_of new s \<noteq> None \<and> map_of new s \<noteq> Some was) old)"
proof -
  have added: "[DeviceStateChangedEvent serial StateDisconnected n.
        (serial, n) \<leftarrow> xs, map_of old serial = None] =
      map (\<lambda>(serial, n). DeviceStateChangedEvent serial StateDisconnected n)
        (filter (\<lambda>(serial, n). map_of old serial = None) xs)" for xs
    by (induction xs) auto
  have removed: "[DeviceStateChangedEvent serial was StateDisconnected.
        (serial, was) \<leftarrow> xs, map_of new serial = None] =
      map (\<lambda>(serial, was). DeviceStateChangedEvent serial was StateDisconnected)
        (filter (\<lambda>(serial, was). map_of new serial = None) xs)" for xs
    by (induction xs) auto
  have changed: "[DeviceStateChangedEvent s was n.
        (s, was) \<leftarrow> xs, n \<leftarrow> (case map_of new s of None \<Rightarrow> [] | Some n \<Rightarrow> [n]), was \<noteq> n] =
      map (\<lambda>(s, was). DeviceStateChangedEvent s was (the (map_of new s)))
        (filter (\<lambda>(s, was). map_of new s \<noteq> None \<and> map_of new s \<noteq> Some was) xs)" for xs
    by (induction xs) (fastforce split: option.splits)+
  show ?thesis
    unfolding calculateStateDiffs_def added removed changed ..
qed

lemma distinct_calculateStateDiffs:
  assumes "snapshot old" and "snapshot new"
  shows "distinct (calculateStateDiffs old new)"
proof -
  from assms have d: "distinct old" "distinct new"
    by (simp_all add: snapshot_def distinct_map)
  have keys: "map_of old s = Some was" if "(s, was) \<in> set old" for s was
    using that assms(1) by (simp add: snapshot_def)
  show ?thesis
    unfolding calculateStateDiffs_map_filter
    using d
    by (auto simp add: distinct_map inj_on_def dest: keys)
qed

lemma calculateStateDiffs_same:
  assumes "snapshot S"
  shows "calculateStateDiffs S S = []"
proof -
  have none: "e \<notin> set (calculateStateDiffs S S)" for e
    by (auto simp add: set_calculateStateDiffs [OF assms assms])
  show ?thesis
  proof (cases "calculateStateDiffs S S")
    case Nil
    then show ?thesis .
  next
    case (Cons e es)
    then have "e \<in> set (calculateStateDiffs S S)" by simp
    with none [of e] show ?thesis by blast
  qed
qed

text \<open>
  Claim C4. For all snapshot maps \<open>old\<close> and \<open>new\<close>, the events of the diff are exactly:
  \<^verbatim>\<open>{serial, Disconnected, new[serial]}\<close> for each serial in \<open>new\<close> but not \<open>old\<close>;
  \<^verbatim>\<open>{serial, old[serial], Disconnected}\<close> for each serial in \<open>old\<close> but not \<open>new\<close>; and
  \<^verbatim>\<open>{serial, old[s], new[s]}\<close> for each serial in both whose states differ. No event
  is emitted twice, and the diff of a snapshot with itself is empty. The witness is the
  scenario of the specification: the diff of \<^verbatim>\<open>{1:Offline, 2:Offline}\<close> and
  \<^verbatim>\<open>{1:Online, 3:Offline}\<close> is \<^verbatim>\<open>(1,Offline,Online)\<close>, \<^verbatim>\<open>(2,Offline,Disconnected)\<close>,
  \<^verbatim>\<open>(3,Disconnected,Offline)\<close>.
\<close>

theorem calculateStateDiffs_events:
  assumes "snapshot old" and "snapshot new"
  shows "(e \<in> set (calculateStateDiffs old new)) =
      ((\<exists>s n. e = DeviceStateChangedEvent s StateDisconnected n \<and>
          map_of new s = Some n \<and> map_of old s = None) \<or>
       (\<exists>s was. e = DeviceStateChangedEvent s was StateDisconnected \<and>
          map_of old s = Some was \<and> map_of new s = None) \<or>
       (\<exists>s was n. e = DeviceStateChangedEvent s was n \<and>
          map_of old s = Some was \<and> map_of new s = Some n \<and> was \<noteq> n)) \<and>
    distinct (calculateStateDiffs old new) \<and>
    calculateStateDiffs old old = []"
  using set_calculateStateDiffs [OF assms, of e] distinct_calculateStateDiffs [OF assms]
    calculateStateDiffs_same [OF assms(1)]
  by simp

theorem calculateStateDiffs_events_witness:
  "snapshot [(''1'', StateOffline), (''2'', StateOffline)] \<and>
   snapshot [(''1'', StateOnline), (''3'', StateOffline)] \<and>
   set (calculateStateDiffs [(''1'', StateOffline), (''2'', StateOffline)]
          [(''1'', StateOnline), (''3'', StateOffline)]) =
     {DeviceStateChangedEvent ''1'' StateOffline StateOnline,
      DeviceStateChangedEvent ''2'' StateOffline StateDisconnected,
      DeviceStateChangedEvent ''3'' StateDisconnected StateOffline} \<and>
   distinct (calculateStateDiffs [(''1'', StateOffline), (''2'', StateOffline)]
          [(''1'', StateOnline), (''3'', StateOffline)]) \<and>
   calculateStateDiffs [(''1'', StateOffline), (''2'', StateOffline)]
     [(''1'', StateOffline), (''2'', StateOffline)] = []"
proof -
  let ?old = "[(''1'', StateOffline), (''2'', StateOffline)]"
  let ?new = "[(''1'', StateOnline), (''3'', StateOffline)]"
  have s: "snapshot ?old" "snapshot ?new"
    by (simp_all add: snapshot_def)
  note t = calculateStateDiffs_events [OF s, of "DeviceStateChangedEvent ''1'' StateOffline StateOnline"]
  from t have d: "distinct (calculateStateDiffs ?old ?new)" by blast
  from t have e: "calculateStateDiffs ?old ?old = []" by blast
  have v: "set (calculateStateDiffs ?old ?new) =
     {DeviceStateChangedEvent ''1'' StateOffline StateOnline,
      DeviceStateChangedEvent ''2'' StateOffline StateDisconnected,
      DeviceStateChangedEvent ''3'' StateDisconnected StateOffline}"
    by (auto simp add: calculateStateDiffs_def)
  from s d e v show ?thesis by blast
qed

text \<open>
  The cases of the repository's tests of \<^verbatim>\<open>calculateStateDiffs\<close>, on the definition above.
\<close>

lemma calculateStateDiffs_tests:
  "calculateStateDiffs [] [] = []"
  "calculateStateDiffs [(''1'', StateOnline), (''2'', StateOnline)]
     [(''1'', StateOnline), (''2'', StateOnline)] = []"
  "calculateStateDiffs [] [(''serial'', StateOffline)] =
     [DeviceStateChangedEvent ''serial'' StateDisconnected StateOffline]"
  "calculateStateDiffs [(''serial'', StateOffline)] [] =
     [DeviceStateChangedEvent ''serial'' StateOffline StateDisconnected]"
  "calculateStateDiffs [(''1'', StateOnline)] [(''1'', StateOnline), (''2'', StateOffline)] =
     [DeviceStateChangedEvent ''2'' StateDisconnected StateOffline]"
  "calculateStateDiffs [(''1'', StateOffline), (''2'', StateOnline)] [(''2'', StateOnline)] =
     [DeviceStateChangedEvent ''1'' StateOffline StateDisconnected]"
  "set (calculateStateDiffs [(''1'', StateOffline)] [(''2'', StateOffline)]) =
     {DeviceStateChangedEvent ''1'' StateOffline StateDisconnected,
      DeviceStateChangedEvent ''2'' StateDisconnected StateOffline}"
  "calculateStateDiffs [(''1'', StateOffline), (''2'', StateOnline)]
     [(''1'', StateOnline), (''2'', StateOnline)] =
     [DeviceStateChangedEvent ''1'' StateOffline StateOnline]"
  "set (calculateStateDiffs [(''1'', StateOffline), (''2'', StateOnline)]
     [(''1'', StateOnline), (''2'', StateOffline)]) =
     {DeviceStateChangedEvent ''1'' StateOffline StateOnline,
      DeviceStateChangedEvent ''2'' StateOnline StateOffline}"
  by (auto simp add: calculateStateDiffs_def)

end
